theory Spec2Isabelle
  imports Complex_Main "HOL-Library.Multiset" "HOL-Library.Log_Nat"
begin

section \<open>The platform: JavaScript dates\<close>

text \<open>
  The aggregation methods of \<^verbatim>\<open>FinanceManager\<close> read a transaction's date with
  \<^verbatim>\<open>new Date(t.date)\<close> and the local-time getters \<^verbatim>\<open>getFullYear\<close>, \<^verbatim>\<open>getMonth\<close>,
  \<^verbatim>\<open>getDate\<close>. These are built-ins of the language; they are modelled after the
  ECMAScript definitions (Day, DayFromYear, YearFromTime, MonthFromTime, DateFromTime,
  MakeDay, MakeDate, LocalTime, TimeClip). A time value is an integer number of
  milliseconds since 1970-01-01T00:00Z, \<open>None\<close> stands for NaN (an invalid date).

  The environment fixes what the language leaves to the host: the offset of local time
  from UTC (taken as constant: no daylight-saving changes) and the result of
  \<^verbatim>\<open>Date.parse\<close> on strings outside the date-time string format modelled below.
\<close>

record env =
  LocalTZA :: int
  legacy_parse :: "string \<Rightarrow> int option"

definition msPerDay :: int where
  "msPerDay = 86400000"

definition Day :: "int \<Rightarrow> int" where
  "Day t = t div msPerDay"

definition DaysInYear :: "int \<Rightarrow> int" where
  "DaysInYear y =
     (if y mod 4 \<noteq> 0 then 365 else if y mod 100 \<noteq> 0 then 366
      else if y mod 400 \<noteq> 0 then 365 else 366)"

definition DayFromYear :: "int \<Rightarrow> int" where
  "DayFromYear y =
     365 * (y - 1970) + (y - 1969) div 4 - (y - 1901) div 100 + (y - 1601) div 400"

text \<open>
  ECMAScript: YearFromTime(t) is the largest year \<open>y\<close> whose first day is not after \<open>t\<close>.
  It is computed from an estimate that is off by at most one year.
\<close>

definition YearFromDay :: "int \<Rightarrow> int" where
  "YearFromDay d =
     (let y = 1970 + (400 * d) div 146097 in
      if d < DayFromYear y then y - 1
      else if DayFromYear (y + 1) \<le> d then y + 1
      else y)"

definition YearFromTime :: "int \<Rightarrow> int" where
  "YearFromTime t = YearFromDay (Day t)"

definition InLeapYear :: "int \<Rightarrow> int" where
  "InLeapYear t = (if DaysInYear (YearFromTime t) = 366 then 1 else 0)"

definition DayWithinYear :: "int \<Rightarrow> int" where
  "DayWithinYear t = Day t - DayFromYear (YearFromTime t)"

definition MonthFromTime :: "int \<Rightarrow> int" where
  "MonthFromTime t =
     (let d = DayWithinYear t; l = InLeapYear t in
      if d < 31 then 0
      else if d < 59 + l then 1
      else if d < 90 + l then 2
      else if d < 120 + l then 3
      else if d < 151 + l then 4
      else if d < 181 + l then 5
      else if d < 212 + l then 6
      else if d < 243 + l then 7
      else if d < 273 + l then 8
      else if d < 304 + l then 9
      else if d < 334 + l then 10
      else 11)"

definition DateFromTime :: "int \<Rightarrow> int" where
  "DateFromTime t =
     (let d = DayWithinYear t; l = InLeapYear t; m = MonthFromTime t in
      if m = 0 then d + 1
      else if m = 1 then d - 30
      else if m = 2 then d - 58 - l
      else if m = 3 then d - 89 - l
      else if m = 4 then d - 119 - l
      else if m = 5 then d - 150 - l
      else if m = 6 then d - 180 - l
      else if m = 7 then d - 211 - l
      else if m = 8 then d - 242 - l
      else if m = 9 then d - 272 - l
      else if m = 10 then d - 303 - l
      else d - 333 - l)"

text \<open>Days before the first of month \<open>m\<close> (0 to 11) in a year with leap flag \<open>l\<close>.\<close>

definition DaysBeforeMonth :: "int \<Rightarrow> int \<Rightarrow> int" where
  "DaysBeforeMonth m l =
     (if m = 0 then 0
      else if m = 1 then 31
      else if m = 2 then 59 + l
      else if m = 3 then 90 + l
      else if m = 4 then 120 + l
      else if m = 5 then 151 + l
      else if m = 6 then 181 + l
      else if m = 7 then 212 + l
      else if m = 8 then 243 + l
      else if m = 9 then 273 + l
      else if m = 10 then 304 + l
      else 334 + l)"

definition DaysInMonth :: "int \<Rightarrow> int \<Rightarrow> int" where
  "DaysInMonth y m =
     (if m = 1 then (if DaysInYear y = 366 then 29 else 28)
      else if m = 3 \<or> m = 5 \<or> m = 8 \<or> m = 10 then 30
      else 31)"

definition MakeDay :: "int \<Rightarrow> int \<Rightarrow> int \<Rightarrow> int" where
  "MakeDay year month dt =
     (let ym = year + month div 12; mn = month mod 12 in
      DayFromYear ym + DaysBeforeMonth mn (if DaysInYear ym = 366 then 1 else 0) + dt - 1)"

definition MakeTime :: "int \<Rightarrow> int \<Rightarrow> int \<Rightarrow> int \<Rightarrow> int" where
  "MakeTime h m s ms = h * 3600000 + m * 60000 + s * 1000 + ms"

definition MakeDate :: "int \<Rightarrow> int \<Rightarrow> int" where
  "MakeDate day time = day * msPerDay + time"

definition TimeClip :: "int option \<Rightarrow> int option" where
  "TimeClip tv =
     (case tv of None \<Rightarrow> None
      | Some t \<Rightarrow> if \<bar>t\<bar> > 8640000000000000 then None else Some t)"

definition LocalTime :: "env \<Rightarrow> int \<Rightarrow> int" where
  "LocalTime e t = t + LocalTZA e"

subsection \<open>The date-time string format\<close>

text \<open>
  \<^verbatim>\<open>Date.parse\<close> on the ECMAScript date-time string format: the date forms
  \<^verbatim>\<open>YYYY\<close>, \<^verbatim>\<open>YYYY-MM\<close>, \<^verbatim>\<open>YYYY-MM-DD\<close>, alone or followed by \<^verbatim>\<open>THH:mm\<close>,
  \<^verbatim>\<open>THH:mm:ss\<close> or \<^verbatim>\<open>THH:mm:ss.sss\<close> and an optional offset \<^verbatim>\<open>Z\<close>, \<^verbatim>\<open>+HH:mm\<close>,
  \<^verbatim>\<open>-HH:mm\<close>. Without an offset a date-only form is a UTC time and a date-time form
  is a local time. A string is a list of code units in the range U+0000 to U+00FF.
  Strings that have another shape, or whose fields do not name a day of the calendar and
  a time of the day before 24:00, are left to \<open>legacy_parse\<close>.
\<close>

definition digit :: "char \<Rightarrow> int option" where
  "digit c =
     (let n = (of_char c :: int) in
      if 48 \<le> n \<and> n \<le> 57 then Some (n - 48) else None)"

fun two_digits :: "string \<Rightarrow> (int \<times> string) option" where
  "two_digits (a # b # s) =
     (case (digit a, digit b) of
        (Some x, Some y) \<Rightarrow> Some (10 * x + y, s)
      | _ \<Rightarrow> None)"
| "two_digits _ = None"

fun three_digits :: "string \<Rightarrow> (int \<times> string) option" where
  "three_digits (a # s) =
     (case (digit a, two_digits s) of
        (Some x, Some (y, r)) \<Rightarrow> Some (100 * x + y, r)
      | _ \<Rightarrow> None)"
| "three_digits _ = None"

fun four_digits :: "string \<Rightarrow> (int \<times> string) option" where
  "four_digits s =
     (case two_digits s of
        None \<Rightarrow> None
      | Some (x, r) \<Rightarrow>
          (case two_digits r of None \<Rightarrow> None | Some (y, r') \<Rightarrow> Some (100 * x + y, r')))"

text \<open>The date part: year, month (1 to 12), day of the month, and the rest of the string.\<close>

definition parse_date_part :: "string \<Rightarrow> (int \<times> int \<times> int \<times> string) option" where
  "parse_date_part s =
     (case four_digits s of
        None \<Rightarrow> None
      | Some (y, r1) \<Rightarrow>
          (case r1 of
             c1 # r1' \<Rightarrow>
               (if c1 = CHR ''-'' then
                  (case two_digits r1' of
                     None \<Rightarrow> None
                   | Some (m, r2) \<Rightarrow>
                       (case r2 of
                          c2 # r2' \<Rightarrow>
                            (if c2 = CHR ''-'' then
                               (case two_digits r2' of
                                  None \<Rightarrow> None
                                | Some (d, r3) \<Rightarrow> Some (y, m, d, r3))
                             else Some (y, m, 1, r2))
                        | [] \<Rightarrow> Some (y, m, 1, [])))
                else Some (y, 1, 1, r1))
           | [] \<Rightarrow> Some (y, 1, 1, [])))"

text \<open>The offset part: \<open>Some None\<close> is "no offset" (local time), \<open>Some (Some ms)\<close> an offset.\<close>

definition parse_offset :: "string \<Rightarrow> int option option" where
  "parse_offset s =
     (if s = [] then Some None
      else if s = ''Z'' then Some (Some 0)
      else (case s of
              sg # r \<Rightarrow>
                (if sg = CHR ''+'' \<or> sg = CHR ''-'' then
                   (case two_digits r of
                      None \<Rightarrow> None
                    | Some (h, r') \<Rightarrow>
                        (case r' of
                           c # r'' \<Rightarrow>
                             (if c = CHR '':'' then
                                (case two_digits r'' of
                                   Some (m, []) \<Rightarrow>
                                     (if h \<le> 23 \<and> m \<le> 59 then
                                        Some (Some ((if sg = CHR ''-'' then - 1 else 1)
                                                    * (h * 3600000 + m * 60000)))
                                      else None)
                                 | _ \<Rightarrow> None)
                              else None)
                         | [] \<Rightarrow> None))
                 else None)
            | [] \<Rightarrow> None))"

text \<open>The time part after \<^verbatim>\<open>T\<close>: milliseconds within the day and the offset.\<close>

definition parse_time_part :: "string \<Rightarrow> (int \<times> int option) option" where
  "parse_time_part s =
     (case two_digits s of
        None \<Rightarrow> None
      | Some (h, r1) \<Rightarrow>
          (case r1 of
             c1 # r1' \<Rightarrow>
               (if c1 = CHR '':'' then
                  (case two_digits r1' of
                     None \<Rightarrow> None
                   | Some (m, r2) \<Rightarrow>
                       (let (sec, r3) =
                              (case r2 of
                                 c2 # r2' \<Rightarrow>
                                   (if c2 = CHR '':'' then
                                      (case two_digits r2' of
                                         None \<Rightarrow> (None, r2)
                                       | Some (x, r) \<Rightarrow> (Some x, r))
                                    else (Some 0, r2))
                               | [] \<Rightarrow> (Some 0, []));
                            (ms, r4) =
                              (case r3 of
                                 c3 # r3' \<Rightarrow>
                                   (if c3 = CHR ''.'' \<and> r2 \<noteq> r3 then
                                      (case three_digits r3' of
                                         None \<Rightarrow> (None, r3)
                                       | Some (x, r) \<Rightarrow> (Some x, r))
                                    else (Some 0, r3))
                               | [] \<Rightarrow> (Some 0, []))
                        in (case (sec, ms, parse_offset r4) of
                              (Some sc, Some msec, Some off) \<Rightarrow>
                                (if h \<le> 23 \<and> m \<le> 59 \<and> sc \<le> 59
                                 then Some (MakeTime h m sc msec, off) else None)
                            | _ \<Rightarrow> None)))
                else None)
           | [] \<Rightarrow> None))"

definition parse_iso :: "int \<Rightarrow> string \<Rightarrow> int option" where
  "parse_iso tza s =
     (case parse_date_part s of
        None \<Rightarrow> None
      | Some (y, m, d, r) \<Rightarrow>
          (if 1 \<le> m \<and> m \<le> 12 \<and> 1 \<le> d \<and> d \<le> DaysInMonth y (m - 1) then
             (case r of
                [] \<Rightarrow> Some (MakeDate (MakeDay y (m - 1) d) 0)
              | c # r' \<Rightarrow>
                  (if c = CHR ''T'' then
                     (case parse_time_part r' of
                        None \<Rightarrow> None
                      | Some (tm, off) \<Rightarrow>
                          Some (MakeDate (MakeDay y (m - 1) d) tm
                                - (case off of None \<Rightarrow> tza | Some z \<Rightarrow> z)))
                   else None))
           else None))"

definition Date_parse :: "env \<Rightarrow> string \<Rightarrow> int option" where
  "Date_parse e s =
     (case parse_iso (LocalTZA e) s of
        Some t \<Rightarrow> Some t
      | None \<Rightarrow> legacy_parse e s)"

text \<open>
  \<^verbatim>\<open>new Date(v)\<close> for a field that is a string or is missing (\<^verbatim>\<open>undefined\<close>, here
  \<open>None\<close>): a missing value gives an invalid date.
\<close>

definition new_Date :: "env \<Rightarrow> string option \<Rightarrow> int option" where
  "new_Date e v =
     (case v of None \<Rightarrow> None | Some s \<Rightarrow> TimeClip (Date_parse e s))"

definition getFullYear :: "env \<Rightarrow> int option \<Rightarrow> int option" where
  "getFullYear e tv = map_option (\<lambda>t. YearFromTime (LocalTime e t)) tv"

definition getMonth :: "env \<Rightarrow> int option \<Rightarrow> int option" where
  "getMonth e tv = map_option (\<lambda>t. MonthFromTime (LocalTime e t)) tv"

definition getDate :: "env \<Rightarrow> int option \<Rightarrow> int option" where
  "getDate e tv = map_option (\<lambda>t. DateFromTime (LocalTime e t)) tv"

section \<open>The platform: JavaScript numbers\<close>

text \<open>
  A number of the language is a binary64 value: a finite one, given here by the rational
  it denotes, NaN, or an infinity. Addition and subtraction give the exact result rounded
  to the nearest representable number, ties to the even significand, and an infinity when
  that exceeds the largest finite number. \<open>exponent x\<close> is the \<open>e\<close> with
  \<open>2^e \<le> |x| < 2^(e+1)\<close>; a significand has 53 bits, and below \<open>2^-1022\<close> the spacing of
  the numbers stays \<open>2^-1074\<close>. The sign of a zero is not kept.
\<close>

datatype number = Finite rat | NaN | PosInfinity | NegInfinity

definition pow2 :: "int \<Rightarrow> rat" where
  "pow2 e = (if 0 \<le> e then 2 ^ nat e else 1 / 2 ^ nat (- e))"

definition exponent :: "rat \<Rightarrow> int" where
  "exponent x =
     (let (p, q) = quotient_of \<bar>x\<bar>; d = bitlen p - bitlen q
      in if pow2 d \<le> \<bar>x\<bar> then d else d - 1)"

definition round_half_even :: "rat \<Rightarrow> int" where
  "round_half_even r =
     (let f = \<lfloor>r\<rfloor>; d = r - of_int f
      in if d < 1 / 2 then f else if 1 / 2 < d then f + 1
         else if even f then f else f + 1)"

definition nearest64 :: "rat \<Rightarrow> rat" where
  "nearest64 x =
     (if x = 0 then 0
      else (let q = pow2 (max (exponent x) (- 1022) - 52)
            in of_int (round_half_even (x / q)) * q))"

definition round64 :: "rat \<Rightarrow> number" where
  "round64 x =
     (let r = nearest64 x
      in if r \<noteq> 0 \<and> 1024 \<le> exponent r
         then (if 0 < r then PosInfinity else NegInfinity)
         else Finite r)"

fun add64 :: "number \<Rightarrow> number \<Rightarrow> number" where
  "add64 (Finite a) (Finite b) = round64 (a + b)"
| "add64 NaN y = NaN"
| "add64 x NaN = NaN"
| "add64 PosInfinity NegInfinity = NaN"
| "add64 NegInfinity PosInfinity = NaN"
| "add64 PosInfinity y = PosInfinity"
| "add64 NegInfinity y = NegInfinity"
| "add64 x PosInfinity = PosInfinity"
| "add64 x NegInfinity = NegInfinity"

fun negate :: "number \<Rightarrow> number" where
  "negate (Finite a) = Finite (- a)"
| "negate NaN = NaN"
| "negate PosInfinity = NegInfinity"
| "negate NegInfinity = PosInfinity"

definition sub64 :: "number \<Rightarrow> number \<Rightarrow> number" where
  "sub64 x y = add64 x (negate y)"

text \<open>
  Adding the numbers \<open>xs\<close> one after the other to \<open>a\<close> never rounds: every sum on the
  way is a representable number.
\<close>

fun exact_adds :: "rat \<Rightarrow> rat list \<Rightarrow> bool" where
  "exact_adds a [] = True"
| "exact_adds a (x # xs) = (round64 (a + x) = Finite (a + x) \<and> exact_adds (a + x) xs)"

section \<open>Transactions and the aggregation methods of FinanceManager\<close>

text \<open>
  A transaction record as the store returns it. The amount is a finite number, given by
  the rational it denotes. \<open>category\<close>, \<open>item\<close> and \<open>date\<close> may be missing (\<open>None\<close>); a
  missing \<open>type\<close> behaves like any string other than \<^verbatim>\<open>'income'\<close> and \<^verbatim>\<open>'expense'\<close>.
\<close>

record transaction =
  id' :: int
  type' :: string
  amount :: rat
  category :: "string option"
  item :: "string option"
  date :: "string option"

definition getMonthlyTransactions ::
  "env \<Rightarrow> transaction list \<Rightarrow> int \<Rightarrow> int \<Rightarrow> transaction list" where
  "getMonthlyTransactions e transactions year month =
     filter (\<lambda>t. let tDate = new_Date e (date t) in
                   getFullYear e tDate = Some year \<and> getMonth e tDate = Some month)
            transactions"

definition getDailyTransactions ::
  "env \<Rightarrow> transaction list \<Rightarrow> int \<Rightarrow> int \<Rightarrow> int \<Rightarrow> transaction list" where
  "getDailyTransactions e transactions year month day =
     filter (\<lambda>t. let tDate = new_Date e (date t) in
                   getFullYear e tDate = Some year \<and>
                   getMonth e tDate = Some month \<and>
                   getDate e tDate = Some day)
            transactions"

record totals =
  income :: number
  expense :: number
  balance :: number

definition calculateMonthlyTotals ::
  "env \<Rightarrow> transaction list \<Rightarrow> int \<Rightarrow> int \<Rightarrow> totals" where
  "calculateMonthlyTotals e transactions year month =
     (let monthlyTransactions = getMonthlyTransactions e transactions year month;
          income = foldl (\<lambda>sum t. add64 sum (Finite (amount t))) (Finite 0)
                     (filter (\<lambda>t. type' t = ''income'') monthlyTransactions);
          expense = foldl (\<lambda>sum t. add64 sum (Finite (amount t))) (Finite 0)
                      (filter (\<lambda>t. type' t = ''expense'') monthlyTransactions)
      in \<lparr>income = income, expense = expense, balance = sub64 income expense\<rparr>)"

section \<open>Controllable and non-controllable expenses\<close>

text \<open>
  \<^verbatim>\<open>String.prototype.trim\<close> and \<^verbatim>\<open>toLowerCase\<close> on code units up to U+00FF: the white
  space and line terminators of that range are U+0009 to U+000D, U+0020 and U+00A0; the
  upper-case letters are A to Z and U+00C0 to U+00DE without U+00D7.
\<close>

definition isWhiteSpace :: "char \<Rightarrow> bool" where
  "isWhiteSpace c =
     (let n = (of_char c :: int) in (9 \<le> n \<and> n \<le> 13) \<or> n = 32 \<or> n = 160)"

definition trim :: "string \<Rightarrow> string" where
  "trim s = rev (dropWhile isWhiteSpace (rev (dropWhile isWhiteSpace s)))"

definition toLowerCase_unit :: "char \<Rightarrow> char" where
  "toLowerCase_unit c =
     (let n = (of_char c :: int) in
      if (65 \<le> n \<and> n \<le> 90) \<or> (192 \<le> n \<and> n \<le> 222 \<and> n \<noteq> 215)
      then char_of (n + 32) else c)"

definition toLowerCase :: "string \<Rightarrow> string" where
  "toLowerCase s = map toLowerCase_unit s"

datatype error = TypeError | Error string

text \<open>
  The classification, written out twice in the source with the same text: in the loop of
  \<^verbatim>\<open>updateMonthlyView\<close> and in the group filter of \<^verbatim>\<open>showBreakdown\<close>.
  \<^verbatim>\<open>t.category.trim()\<close> raises a TypeError when the category is missing;
  \<^verbatim>\<open>(t.item || '')\<close> reads a missing item as the empty string.
\<close>

definition isNonControllable :: "transaction \<Rightarrow> error + bool" where
  "isNonControllable t =
     (case category t of
        None \<Rightarrow> Inl TypeError
      | Some c \<Rightarrow>
          (let cat = toLowerCase (trim c);
               itm = toLowerCase (trim (case item t of None \<Rightarrow> [] | Some i \<Rightarrow> i))
           in Inr (cat = ''emi'' \<or> cat = ''emis'' \<or> cat = ''investment''
                   \<or> cat = ''investments'' \<or> (cat = ''home'' \<and> itm = ''home''))))"

text \<open>
  The \<^verbatim>\<open>forEach\<close> of \<^verbatim>\<open>updateMonthlyView\<close> over the expenses of the month, with the two
  running sums \<open>controllable\<close> and \<open>nonControllable\<close>; an exception ends it.
\<close>

fun split_expenses ::
  "transaction list \<Rightarrow> number \<Rightarrow> number \<Rightarrow> error + (number \<times> number)" where
  "split_expenses [] controllable nonControllable = Inr (controllable, nonControllable)"
| "split_expenses (t # ts) controllable nonControllable =
     (case isNonControllable t of
        Inl err \<Rightarrow> Inl err
      | Inr nc \<Rightarrow>
          (if nc
           then split_expenses ts controllable (add64 nonControllable (Finite (amount t)))
           else split_expenses ts (add64 controllable (Finite (amount t))) nonControllable))"

text \<open>
  The block of \<^verbatim>\<open>updateMonthlyView\<close> under its comment "Calculate Controllable vs
  Non-Controllable", from \<^verbatim>\<open>const monthlyTransactions\<close> to the end of the \<^verbatim>\<open>forEach\<close>:
  the values it leaves in \<open>controllable\<close> and \<open>nonControllable\<close> for the selected month,
  or the exception that ends it. The function goes on to render the two values and to
  call \<^verbatim>\<open>updateExpenseSummary\<close>; that is not part of this block.
\<close>

record split =
  controllable :: number
  nonControllable :: number

definition controllableSplit ::
  "env \<Rightarrow> transaction list \<Rightarrow> int \<Rightarrow> int \<Rightarrow> error + split" where
  "controllableSplit e transactions year month =
     (let monthlyTransactions = getMonthlyTransactions e transactions year month;
          expenses = filter (\<lambda>t. type' t = ''expense'') monthlyTransactions
      in case split_expenses expenses (Finite 0) (Finite 0) of
           Inl err \<Rightarrow> Inl err
         | Inr (c, n) \<Rightarrow> Inr \<lparr>controllable = c, nonControllable = n\<rparr>)"

text \<open>
  The group filter of \<^verbatim>\<open>showBreakdown\<close>: \<^verbatim>\<open>transactions.filter\<close> with the classification
  as its test; the group \<^verbatim>\<open>'non-controllable'\<close> keeps the non-controllable ones, any
  other group the rest.
\<close>

fun filter_group :: "string \<Rightarrow> transaction list \<Rightarrow> error + transaction list" where
  "filter_group grp [] = Inr []"
| "filter_group grp (t # ts) =
     (case isNonControllable t of
        Inl err \<Rightarrow> Inl err
      | Inr nc \<Rightarrow>
          (case filter_group grp ts of
             Inl err \<Rightarrow> Inl err
           | Inr kept \<Rightarrow>
               Inr (if (if grp = ''non-controllable'' then nc else \<not> nc)
                    then t # kept else kept)))"

text \<open>The rule of the specification, on a category and an item that are present.\<close>

definition normalise :: "string \<Rightarrow> string" where
  "normalise s = toLowerCase (trim s)"

definition non_controllable_rule :: "string \<Rightarrow> string \<Rightarrow> bool" where
  "non_controllable_rule cat itm =
     (normalise cat \<in> {''emi'', ''emis'', ''investment'', ''investments''}
      \<or> (normalise cat = ''home'' \<and> normalise itm = ''home''))"

section \<open>Plain objects used as dictionaries\<close>

text \<open>
  \<^verbatim>\<open>getExpensesByCategory\<close> and \<^verbatim>\<open>showBreakdown\<close> collect per category in an object
  literal \<^verbatim>\<open>{}\<close>. Such an object has its own properties, kept here in creation order,
  and inherits those of \<^verbatim>\<open>Object.prototype\<close>: reading a key that is not an own property
  finds the inherited member when the key is one of the names below, and \<^verbatim>\<open>undefined\<close>
  otherwise.
\<close>

type_synonym 'v object = "(string \<times> 'v) list"

datatype 'v lookup = Own 'v | Inherited | Absent

definition Object_prototype_names :: "string list" where
  "Object_prototype_names =
     [''constructor'', ''__defineGetter__'', ''__defineSetter__'', ''hasOwnProperty'',
      ''__lookupGetter__'', ''__lookupSetter__'', ''isPrototypeOf'',
      ''propertyIsEnumerable'', ''toString'', ''valueOf'', ''__proto__'',
      ''toLocaleString'']"

definition get_property :: "'v object \<Rightarrow> string \<Rightarrow> 'v lookup" where
  "get_property obj k =
     (case map_of obj k of
        Some v \<Rightarrow> Own v
      | None \<Rightarrow> if k \<in> set Object_prototype_names then Inherited else Absent)"

fun update_own :: "string \<Rightarrow> 'v \<Rightarrow> 'v object \<Rightarrow> 'v object" where
  "update_own k v [] = [(k, v)]"
| "update_own k v ((k', v') # ps) =
     (if k' = k then (k, v) # ps else (k', v') # update_own k v ps)"

text \<open>
  Assignment \<^verbatim>\<open>obj[k] = v\<close>. The inherited members are writable data properties, so the
  assignment makes an own property that shadows them; \<^verbatim>\<open>__proto__\<close> is an accessor whose
  setter does nothing when \<open>v\<close> is a number or a string.
\<close>

definition set_property :: "'v object \<Rightarrow> string \<Rightarrow> 'v \<Rightarrow> 'v object" where
  "set_property obj k v = (if k = ''__proto__'' then obj else update_own k v obj)"

text \<open>The key that \<^verbatim>\<open>obj[t.category]\<close> uses: a missing category reads as \<^verbatim>\<open>"undefined"\<close>.\<close>

definition property_key :: "string option \<Rightarrow> string" where
  "property_key c = (case c of None \<Rightarrow> ''undefined'' | Some k \<Rightarrow> k)"

text \<open>
  \<^verbatim>\<open>Object.entries\<close> lists the own properties whose key is an array index (a canonical
  decimal numeral up to \<open>2^32 - 2\<close>) in ascending numeric order, and then the others in
  creation order.
\<close>

definition array_index :: "string \<Rightarrow> int option" where
  "array_index k =
     (let n = foldl (\<lambda>a c. 10 * a + (of_char c - 48)) (0::int) k in
      if k \<noteq> [] \<and> list_all (\<lambda>c. 48 \<le> (of_char c :: int) \<and> (of_char c :: int) \<le> 57) k
         \<and> (k = ''0'' \<or> hd k \<noteq> CHR ''0'') \<and> n \<le> 4294967294
      then Some n else None)"

definition Object_entries :: "'v object \<Rightarrow> (string \<times> 'v) list" where
  "Object_entries obj =
     sort_key (\<lambda>(k, v). case array_index k of Some n \<Rightarrow> n | None \<Rightarrow> 0)
       (filter (\<lambda>(k, v). array_index k \<noteq> None) obj)
     @ filter (\<lambda>(k, v). array_index k = None) obj"

section \<open>Expenses by category\<close>

text \<open>
  The values that \<^verbatim>\<open>categoryTotals\<close> can hold: a number, or the string that \<^verbatim>\<open>+=\<close>
  builds when the left operand is not a number. \<open>Str k xs\<close> is the string form of the
  member \<open>k\<close> of \<^verbatim>\<open>Object.prototype\<close> followed by the decimal forms of the amounts \<open>xs\<close>.
\<close>

datatype total = Num number | Str string "rat list"

fun falsy :: "total lookup \<Rightarrow> bool" where
  "falsy Absent = True"
| "falsy Inherited = False"
| "falsy (Own (Num (Finite x))) = (x = 0)"
| "falsy (Own (Num NaN)) = True"
| "falsy (Own (Num PosInfinity)) = False"
| "falsy (Own (Num NegInfinity)) = False"
| "falsy (Own (Str k xs)) = False"

definition number_plus :: "number \<Rightarrow> rat \<Rightarrow> number" where
  "number_plus n x = add64 n (Finite x)"

text \<open>\<^verbatim>\<open>v + x\<close> for the value \<open>v\<close> read at key \<open>k\<close> and a number \<open>x\<close>.\<close>

fun plus_amount :: "string \<Rightarrow> total lookup \<Rightarrow> rat \<Rightarrow> total" where
  "plus_amount k (Own (Num n)) x = Num (number_plus n x)"
| "plus_amount k (Own (Str k' xs)) x = Str k' (xs @ [x])"
| "plus_amount k Inherited x = Str k [x]"
| "plus_amount k Absent x = Num NaN"

text \<open>The body of the \<^verbatim>\<open>forEach\<close> of \<^verbatim>\<open>getExpensesByCategory\<close>.\<close>

definition add_expense :: "total object \<Rightarrow> transaction \<Rightarrow> total object" where
  "add_expense categoryTotals t =
     (let k = property_key (category t);
          initialised =
            (if falsy (get_property categoryTotals k)
             then set_property categoryTotals k (Num (Finite 0)) else categoryTotals)
      in set_property initialised k (plus_amount k (get_property initialised k) (amount t)))"

definition getExpensesByCategory ::
  "env \<Rightarrow> transaction list \<Rightarrow> int \<Rightarrow> int \<Rightarrow> total object" where
  "getExpensesByCategory e transactions year month =
     (let monthlyTransactions = getMonthlyTransactions e transactions year month;
          expenses = filter (\<lambda>t. type' t = ''expense'') monthlyTransactions
      in foldl add_expense [] expenses)"

text \<open>
  The sum of the values of the result, as \<^verbatim>\<open>updateExpenseSummary\<close> takes it:
  \<^verbatim>\<open>Object.values(categoryData).reduce((a, b) => a + b, 0)\<close>. It is a number as long as
  every value is one; a string value turns the sum into a string, here \<open>None\<close>.
\<close>

fun sum_values :: "total list \<Rightarrow> number \<Rightarrow> number option" where
  "sum_values [] a = Some a"
| "sum_values (Num (Finite x) # vs) a = sum_values vs (number_plus a x)"
| "sum_values (Num NaN # vs) a = sum_values vs NaN"
| "sum_values (Num PosInfinity # vs) a =
     sum_values vs (if a = NaN \<or> a = NegInfinity then NaN else PosInfinity)"
| "sum_values (Num NegInfinity # vs) a =
     sum_values vs (if a = NaN \<or> a = PosInfinity then NaN else NegInfinity)"
| "sum_values (Str k xs # vs) a = None"

definition total_of_values :: "total object \<Rightarrow> number option" where
  "total_of_values categoryData = sum_values (map snd (Object_entries categoryData)) (Finite 0)"

section \<open>The breakdown by category\<close>








section \<open>Deleting a transaction\<close>

text \<open>
  \<^verbatim>\<open>parseInt(s)\<close>: leading white space, an optional sign, then the longest run of
  decimal digits (hexadecimal digits after \<^verbatim>\<open>0x\<close>); \<open>None\<close> is NaN.
\<close>

definition hex_digit :: "char \<Rightarrow> int option" where
  "hex_digit c =
     (let n = (of_char c :: int) in
      if 48 \<le> n \<and> n \<le> 57 then Some (n - 48)
      else if 65 \<le> n \<and> n \<le> 70 then Some (n - 55)
      else if 97 \<le> n \<and> n \<le> 102 then Some (n - 87)
      else None)"

fun digits_value :: "(char \<Rightarrow> int option) \<Rightarrow> int \<Rightarrow> string \<Rightarrow> int \<Rightarrow> int" where
  "digits_value dg radix [] a = a"
| "digits_value dg radix (c # s) a =
     (case dg c of None \<Rightarrow> a | Some v \<Rightarrow> digits_value dg radix s (radix * a + v))"

definition parseInt :: "string \<Rightarrow> int option" where
  "parseInt s =
     (let s1 = dropWhile isWhiteSpace s;
          negative = (s1 \<noteq> [] \<and> hd s1 = CHR ''-'');
          s2 = (if s1 \<noteq> [] \<and> (hd s1 = CHR ''-'' \<or> hd s1 = CHR ''+'') then tl s1 else s1);
          hex = (take 2 s2 = ''0x'' \<or> take 2 s2 = ''0X'');
          s3 = (if hex then drop 2 s2 else s2);
          dg = (if hex then hex_digit else digit);
          radix = (if hex then 16 else 10)
      in if s3 = [] \<or> dg (hd s3) = None then None
         else Some ((if negative then - 1 else 1) * digits_value dg radix s3 0))"

text \<open>
  The data file of the server, and the route \<^verbatim>\<open>DELETE /api/transactions/:id\<close> behind
  \<^verbatim>\<open>requireAuth\<close>. The file is \<open>None\<close> when \<^verbatim>\<open>readData\<close> cannot read or parse it;
  \<^verbatim>\<open>writeData\<close> is taken to succeed. The route returns the response and the new file.
\<close>

record data =
  transactions :: "transaction list"
  incomeSources :: "string list"
  expenseCategories :: "string list"
  expenseItems :: "string list"

datatype response = Success | Status nat string

definition delete_route :: "bool \<Rightarrow> data option \<Rightarrow> string \<Rightarrow> response \<times> data option" where
  "delete_route authenticated file id_param =
     (if \<not> authenticated then (Status 401 ''Unauthorized'', file)
      else (case file of
              None \<Rightarrow> (Status 500 ''Failed to delete transaction'', file)
            | Some d \<Rightarrow>
                (let pid = parseInt id_param
                 in (Success,
                     Some (d\<lparr>transactions :=
                              filter (\<lambda>t. Some (id' t) \<noteq> pid) (transactions d)\<rparr>)))))"

text \<open>
  \<^verbatim>\<open>FinanceManager.deleteTransaction(id)\<close> of the client of that server. The outcome of
  \<^verbatim>\<open>fetch\<close> is given: it rejects, or it resolves to a response whose \<^verbatim>\<open>ok\<close> flag is
  set for a status from 200 to 299. The id is the number its callers pass, the result
  of \<^verbatim>\<open>parseInt\<close> (\<open>None\<close> is NaN, which no id equals). The method returns the new
  local list and \<^verbatim>\<open>true\<close>, or throws.
\<close>

datatype fetch_result = Rejected | Response bool

definition deleteTransaction ::
  "fetch_result \<Rightarrow> transaction list \<Rightarrow> int option
     \<Rightarrow> error + (transaction list \<times> bool)" where
  "deleteTransaction fetched local_transactions ident =
     (case fetched of
        Rejected \<Rightarrow> Inl (Error ''fetch'')
      | Response ok \<Rightarrow>
          (if \<not> ok then Inl (Error ''Failed to delete transaction'')
           else Inr (filter (\<lambda>t. Some (id' t) \<noteq> ident) local_transactions, True)))"

definition response_ok :: "response \<Rightarrow> bool" where
  "response_ok r = (case r of Success \<Rightarrow> True | Status n msg \<Rightarrow> 200 \<le> n \<and> n \<le> 299)"

text \<open>
  The test of the filter of \<open>getMonthlyTransactions\<close>, by name: the local year and month
  of \<^verbatim>\<open>new Date(t.date)\<close> are the given ones.
\<close>

definition month_test :: "env \<Rightarrow> int \<Rightarrow> int \<Rightarrow> transaction \<Rightarrow> bool" where
  "month_test e year month t =
     (getFullYear e (new_Date e (date t)) = Some year \<and>
      getMonth e (new_Date e (date t)) = Some month)"

section \<open>Example environments and snapshots\<close>

text \<open>
  Two hosts, one on UTC and one five hours west of it, both with no legacy date formats;
  and the snapshot of the example of the specification: a salary, an EMI and groceries in
  March 2024.
\<close>

definition utc :: env where
  "utc = \<lparr>LocalTZA = 0, legacy_parse = (\<lambda>s. None)\<rparr>"

definition utc_minus_5 :: env where
  "utc_minus_5 = \<lparr>LocalTZA = - 18000000, legacy_parse = (\<lambda>s. None)\<rparr>"

definition march_2024 :: "transaction list" where
  "march_2024 =
     [\<lparr>id' = 1, type' = ''income'', amount = 5000, category = Some ''Salary'',
       item = None, date = Some ''2024-03-01''\<rparr>,
      \<lparr>id' = 2, type' = ''expense'', amount = 1200, category = Some ''EMI'',
       item = Some [], date = Some ''2024-03-05''\<rparr>,
      \<lparr>id' = 3, type' = ''expense'', amount = 300, category = Some ''Food'',
       item = Some ''Groceries'', date = Some ''2024-03-10''\<rparr>]"

text \<open>
  The calendar date of the date field of a transaction: the year, month (1 to 12) and day
  that its leading \<^verbatim>\<open>YYYY-MM-DD\<close> spells (what \<^verbatim>\<open>t.date.split('T')[0]\<close> shows), whatever
  follows it and whatever the time zone of the host.
\<close>

definition field_date :: "transaction \<Rightarrow> (int \<times> int \<times> int) option" where
  "field_date t =
     (case date t of
        None \<Rightarrow> None
      | Some s \<Rightarrow>
          (case parse_date_part s of
             Some (y, m, d, r) \<Rightarrow>
               (if 1 \<le> m \<and> m \<le> 12 \<and> 1 \<le> d \<and> d \<le> DaysInMonth y (m - 1)
                then Some (y, m, d) else None)
           | None \<Rightarrow> None))"

text \<open>
  The calendar date that a date-only string names: year, month (1 to 12) and day of the
  month of a string of the form \<^verbatim>\<open>YYYY-MM-DD\<close> (or \<^verbatim>\<open>YYYY-MM\<close>, \<^verbatim>\<open>YYYY\<close>, read as the
  first of the month or year) whose fields are a day of the calendar.
\<close>

definition calendar_date :: "string \<Rightarrow> (int \<times> int \<times> int) option" where
  "calendar_date s =
     (case parse_date_part s of
        Some (y, m, d, r) \<Rightarrow>
          (if r = [] \<and> 1 \<le> m \<and> m \<le> 12 \<and> 1 \<le> d \<and> d \<le> DaysInMonth y (m - 1)
           then Some (y, m, d) else None)
      | None \<Rightarrow> None)"

text \<open>
  For the statements about \<open>getExpensesByCategory\<close>: the key under which a transaction
  is collected, the number held by a value of the result, the objects all of whose values
  are numbers other than NaN, and the sum that the code builds for a key: the amounts of
  the transactions with that key, added one after the other.
\<close>

definition category_key :: "transaction \<Rightarrow> string" where
  "category_key t = property_key (category t)"

fun number_value :: "total \<Rightarrow> number" where
  "number_value (Num n) = n"
| "number_value (Str k xs) = Finite 0"

fun is_number :: "total \<Rightarrow> bool" where
  "is_number (Num n) = (n \<noteq> NaN)"
| "is_number (Str k xs) = False"

definition numeric :: "total object \<Rightarrow> bool" where
  "numeric obj = list_all (\<lambda>(k, v). is_number v) obj"

definition current :: "total object \<Rightarrow> string \<Rightarrow> number" where
  "current obj k = (case map_of obj k of Some v \<Rightarrow> number_value v | None \<Rightarrow> Finite 0)"

definition category_sum :: "string \<Rightarrow> number \<Rightarrow> transaction list \<Rightarrow> number" where
  "category_sum k a ts =
     foldl (\<lambda>sum t. number_plus sum (amount t)) a (filter (\<lambda>t. category_key t = k) ts)"

text \<open>
  The snapshot with the amounts 0.1, 0.1 and 1.1, each the number nearest to the decimal:
  food, an EMI and food again, on three days of March 2024.
\<close>

definition tenths :: "transaction list" where
  "tenths =
     [\<lparr>id' = 1, type' = ''expense'', amount = nearest64 (1 / 10), category = Some ''Food'',
       item = None, date = Some ''2024-03-05''\<rparr>,
      \<lparr>id' = 2, type' = ''expense'', amount = nearest64 (1 / 10), category = Some ''EMI'',
       item = None, date = Some ''2024-03-06''\<rparr>,
      \<lparr>id' = 3, type' = ''expense'', amount = nearest64 (11 / 10), category = Some ''Food'',
       item = None, date = Some ''2024-03-07''\<rparr>]"

text \<open>
  The expense transactions that \<open>getMonthlyTransactions\<close> returns for a month, and the
  sum that a \<^verbatim>\<open>reduce\<close> or \<^verbatim>\<open>forEach\<close> of the code builds over a list of transactions:
  from 0, the amounts added one after the other.
\<close>

definition month_expenses :: "env \<Rightarrow> transaction list \<Rightarrow> int \<Rightarrow> int \<Rightarrow> transaction list" where
  "month_expenses e ts year month =
     filter (\<lambda>t. type' t = ''expense'') (getMonthlyTransactions e ts year month)"

definition left_sum :: "transaction list \<Rightarrow> number" where
  "left_sum ts = foldl (\<lambda>sum t. add64 sum (Finite (amount t))) (Finite 0) ts"


text \<open>
  A snapshot of one expense dated on the first day of 2024, and one of a March expense
  that has no category.
\<close>

definition new_year_2024 :: "transaction list" where
  "new_year_2024 =
     [\<lparr>id' = 1, type' = ''expense'', amount = 10, category = Some ''Food'', item = None,
       date = Some ''2024-01-01''\<rparr>]"


section \<open>Monthly totals\<close>

lemma getMonthlyTransactions_month_test:
  "getMonthlyTransactions e ts year month = filter (month_test e year month) ts"
  by (simp add: getMonthlyTransactions_def month_test_def [abs_def] Let_def)

text \<open>
  Claim C1 does not hold of the code. The months of \<open>calculateMonthlyTotals\<close> are those
  of \<open>getMonthlyTransactions\<close>, which reads a date-only string as midnight UTC and then
  takes the local year and month. Five hours west of UTC, on the snapshot of the example
  of the specification, the salary dated 2024-03-01 is left out of March 2024 and summed
  into February: the totals of March are 0, 1500 and -1500 where the claim gives 5000,
  1500 and 3500, as the same call does on a host on UTC.
\<close>

theorem calculateMonthlyTotals_month_shift:
  "field_date (hd march_2024) = Some (2024, 3, 1)
   \<and> calculateMonthlyTotals utc_minus_5 march_2024 2024 2
       = \<lparr>income = Finite 0, expense = Finite 1500, balance = Finite (- 1500)\<rparr>
   \<and> calculateMonthlyTotals utc_minus_5 march_2024 2024 1
       = \<lparr>income = Finite 5000, expense = Finite 0, balance = Finite 5000\<rparr>
   \<and> calculateMonthlyTotals utc march_2024 2024 2
       = \<lparr>income = Finite 5000, expense = Finite 1500, balance = Finite 3500\<rparr>"
  by code_simp

section \<open>The classification and the split\<close>

lemma isNonControllable_Some:
  "category t = Some c \<Longrightarrow>
   isNonControllable t =
     Inr (non_controllable_rule c (case item t of None \<Rightarrow> [] | Some i \<Rightarrow> i))"
  by (simp add: isNonControllable_def non_controllable_rule_def normalise_def Let_def)

lemma isNonControllable_cases:
  "category t \<noteq> None \<Longrightarrow> isNonControllable t = Inr True \<or> isNonControllable t = Inr False"
  by (cases "category t") (auto simp: isNonControllable_Some)


text \<open>
  Claim C2. An expense transaction (with its category present) is classified
  non-controllable exactly when its category, trimmed and lower-cased, is one of "emi",
  "emis", "investment", "investments", or is "home" while its item, trimmed and
  lower-cased (a missing item read as empty), is "home" as well; it is controllable
  otherwise. The loop of the monthly view puts its amount into the bucket so chosen, and
  the group filter of the breakdown keeps it in the group so chosen.
\<close>

theorem classification_rule:
  assumes "category t = Some c"
  shows "isNonControllable t =
           Inr (non_controllable_rule c (case item t of None \<Rightarrow> [] | Some i \<Rightarrow> i))
     \<and> split_expenses [t] (Finite 0) (Finite 0) =
           Inr (if non_controllable_rule c (case item t of None \<Rightarrow> [] | Some i \<Rightarrow> i)
                then (Finite 0, add64 (Finite 0) (Finite (amount t)))
                else (add64 (Finite 0) (Finite (amount t)), Finite 0))
     \<and> filter_group ''non-controllable'' [t] =
           Inr (if non_controllable_rule c (case item t of None \<Rightarrow> [] | Some i \<Rightarrow> i)
                then [t] else [])
     \<and> filter_group ''controllable'' [t] =
           Inr (if non_controllable_rule c (case item t of None \<Rightarrow> [] | Some i \<Rightarrow> i)
                then [] else [t])"
  using assms by (simp add: isNonControllable_Some)

theorem classification_rule_witness:
  "isNonControllable \<lparr>id' = 1, type' = ''expense'', amount = 10, category = Some '' Home '',
                      item = Some ''HOME '', date = Some ''2024-03-05''\<rparr> = Inr True
   \<and> isNonControllable \<lparr>id' = 2, type' = ''expense'', amount = 10, category = Some ''Home'',
                      item = Some ''Rent'', date = Some ''2024-03-05''\<rparr> = Inr False"
proof -
  have a: "non_controllable_rule '' Home '' ''HOME '' = True"
    by code_simp
  have b: "non_controllable_rule ''Home'' ''Rent'' = False"
    by code_simp
  show ?thesis
    using classification_rule [of "\<lparr>id' = 1, type' = ''expense'', amount = 10,
              category = Some '' Home '', item = Some ''HOME '',
              date = Some ''2024-03-05''\<rparr>" "'' Home ''"]
          classification_rule [of "\<lparr>id' = 2, type' = ''expense'', amount = 10,
              category = Some ''Home'', item = Some ''Rent'',
              date = Some ''2024-03-05''\<rparr>" "''Home''"]
    by (simp add: a b)
qed

subsection \<open>Sums without rounding\<close>

lemma nearest64_zero: "nearest64 0 = 0"
  by (simp add: nearest64_def)

lemma round64_zero: "round64 0 = Finite 0"
  by (simp add: round64_def nearest64_zero)

lemma exact_adds_fold:
  "exact_adds a xs \<Longrightarrow>
   foldl (\<lambda>sum x. add64 sum (Finite x)) (Finite a) xs = Finite (a + sum_list xs)"
  by (induction xs arbitrary: a) (simp_all add: add.assoc)

lemma exact_adds_total:
  "round64 a = Finite a \<Longrightarrow> exact_adds a xs \<Longrightarrow>
   round64 (a + sum_list xs) = Finite (a + sum_list xs)"
proof (induction xs arbitrary: a)
  case Nil
  then show ?case by simp
next
  case (Cons x xs)
  from Cons.prems have "round64 (a + x) = Finite (a + x)" and "exact_adds (a + x) xs"
    by simp_all
  then have "round64 (a + x + sum_list xs) = Finite (a + x + sum_list xs)"
    by (rule Cons.IH)
  then show ?case by (simp add: add.assoc)
qed

lemma left_sum_exact:
  "exact_adds 0 (map amount ts) \<Longrightarrow> left_sum ts = Finite (sum_list (map amount ts))"
proof -
  assume "exact_adds 0 (map amount ts)"
  then have "foldl (\<lambda>sum x. add64 sum (Finite x)) (Finite 0) (map amount ts)
      = Finite (0 + sum_list (map amount ts))"
    by (rule exact_adds_fold)
  then show ?thesis by (simp add: left_sum_def foldl_map)
qed

lemma sum_list_two_filters:
  "\<forall>t\<in>set ts. P t \<or> Q t \<Longrightarrow> \<forall>t\<in>set ts. \<not> (P t \<and> Q t) \<Longrightarrow>
   sum_list (map amount (filter P ts)) + sum_list (map amount (filter Q ts))
     = sum_list (map amount ts)"
  by (induction ts) auto

lemma sum_list_filter_le:
  "\<forall>t\<in>set ts. 0 \<le> amount t \<Longrightarrow>
   sum_list (map amount (filter P ts)) \<le> sum_list (map amount ts)"
  by (induction ts) (auto intro: add_increasing)

subsection \<open>Whole numbers add without rounding\<close>

lemma bitlen_one: "bitlen 1 = 1"
  by (simp add: bitlen_alt_def)

lemma exponent_whole:
  assumes "0 < n"
  shows "exponent (of_int n) = bitlen n - 1" and "0 \<le> bitlen n - 1"
proof -
  from assms have b: "1 \<le> bitlen n"
    by (simp add: bitlen_alt_def)
  then show "0 \<le> bitlen n - 1" by simp
  from bitlen_bounds [OF assms] have "2 ^ nat (bitlen n - 1) \<le> n" by simp
  then have "(of_int (2 ^ nat (bitlen n - 1)) :: rat) \<le> of_int n"
    by (simp only: of_int_le_iff)
  then have "pow2 (bitlen n - 1) \<le> \<bar>of_int n\<bar>"
    using b assms by (simp add: pow2_def)
  then show "exponent (of_int n) = bitlen n - 1"
    using assms by (simp add: exponent_def bitlen_one Let_def)
qed

lemma round_half_even_int: "round_half_even (of_int k) = k"
  by (simp add: round_half_even_def)

lemma nearest64_whole:
  assumes "0 < n" and "n < 2 ^ 53"
  shows "nearest64 (of_int n) = of_int n"
proof -
  let ?d = "bitlen n - 1"
  from exponent_whole [OF assms(1)] have e: "exponent (of_int n) = ?d" and d0: "0 \<le> ?d"
    by simp_all
  from assms(2) have "bitlen n \<le> 53"
    by (simp add: bitlen_le_iff_power)
  then have d52: "?d \<le> 52" by simp
  define k where "k = nat (52 - ?d)"
  from d0 d52 have q: "pow2 (max ?d (- 1022) - 52) = 1 / 2 ^ k"
    by (auto simp: pow2_def k_def max_def)
  have "(of_int n :: rat) / (1 / 2 ^ k) = of_int (n * 2 ^ k)"
    by simp
  then have "round_half_even (of_int n / (1 / 2 ^ k)) = n * 2 ^ k"
    by (simp only: round_half_even_int)
  with assms(1) show ?thesis
    by (simp add: nearest64_def e q Let_def)
qed

lemma round64_whole:
  assumes "0 \<le> n" and "n < 2 ^ 53"
  shows "round64 (of_int n) = Finite (of_int n)"
proof (cases "n = 0")
  case True
  then show ?thesis by (simp add: round64_def nearest64_def)
next
  case False
  with assms have pos: "0 < n" by simp
  from assms(2) have "bitlen n \<le> 53"
    by (simp add: bitlen_le_iff_power)
  with exponent_whole [OF pos] have "exponent (of_int n) < 1024" by simp
  with nearest64_whole [OF pos assms(2)] show ?thesis
    by (simp add: round64_def Let_def)
qed

lemma exact_adds_whole:
  assumes "\<forall>x\<in>set xs. x \<in> \<int> \<and> 0 \<le> x" and "a \<in> \<int>" and "0 \<le> a"
    and "a + sum_list xs < 2 ^ 53"
  shows "exact_adds a xs"
  using assms
proof (induction xs arbitrary: a)
  case Nil
  show ?case by simp
next
  case (Cons x xs)
  from Cons.prems have x: "x \<in> \<int>" "0 \<le> x" and rest: "\<forall>x\<in>set xs. x \<in> \<int> \<and> 0 \<le> x"
    by simp_all
  from rest have nn: "0 \<le> sum_list xs"
    by (intro sum_list_nonneg) simp
  from x Cons.prems have ax: "a + x \<in> \<int>" "0 \<le> a + x" by simp_all
  from ax obtain n where n: "a + x = of_int n" "0 \<le> n"
    by (auto elim!: Ints_cases)
  from Cons.prems nn have "a + x < 2 ^ 53" by simp
  with n have "n < 2 ^ 53"
    by (metis of_int_less_numeral_power_cancel_iff)
  with n have r: "round64 (a + x) = Finite (a + x)"
    by (simp add: round64_whole)
  from Cons.prems have "a + x + sum_list xs < 2 ^ 53" by (simp add: add.assoc)
  with rest ax have "exact_adds (a + x) xs" by (intro Cons.IH) simp_all
  with r show ?case by simp
qed

lemma exact_adds_whole_amounts:
  assumes "\<forall>t\<in>set ts. amount t \<in> \<int> \<and> 0 \<le> amount t"
    and "sum_list (map amount ts) < 2 ^ 53"
  shows "exact_adds 0 (map amount (filter P ts))"
proof -
  from assms(1) have "sum_list (map amount (filter P ts)) \<le> sum_list (map amount ts)"
    by (intro sum_list_filter_le) simp
  with assms(2) have "0 + sum_list (map amount (filter P ts)) < 2 ^ 53" by simp
  with assms(1) show ?thesis
    by (intro exact_adds_whole) auto
qed

subsection \<open>The two buckets\<close>

lemma split_expenses_folds:
  "\<forall>t\<in>set ts. category t \<noteq> None \<Longrightarrow>
   split_expenses ts c n =
     Inr (foldl (\<lambda>sum t. add64 sum (Finite (amount t))) c
            (filter (\<lambda>t. isNonControllable t = Inr False) ts),
          foldl (\<lambda>sum t. add64 sum (Finite (amount t))) n
            (filter (\<lambda>t. isNonControllable t = Inr True) ts))"
proof (induction ts arbitrary: c n)
  case Nil
  show ?case by simp
next
  case (Cons t ts)
  from Cons.prems have "isNonControllable t = Inr True \<or> isNonControllable t = Inr False"
    by (simp add: isNonControllable_cases)
  moreover from Cons.prems have "\<forall>t\<in>set ts. category t \<noteq> None" by simp
  ultimately show ?case
    by (auto simp: Cons.IH)
qed


lemma controllableSplit_returns:
  assumes "\<forall>t\<in>set (month_expenses e ts year month). category t \<noteq> None"
  shows "controllableSplit e ts year month =
     Inr \<lparr>controllable =
            left_sum (filter (\<lambda>t. isNonControllable t = Inr False)
                        (month_expenses e ts year month)),
          nonControllable =
            left_sum (filter (\<lambda>t. isNonControllable t = Inr True)
                        (month_expenses e ts year month))\<rparr>"
  using split_expenses_folds [OF assms, of "Finite 0" "Finite 0"]
  by (simp add: controllableSplit_def month_expenses_def left_sum_def)


lemma expense_left_sum:
  "expense (calculateMonthlyTotals e ts year month) = left_sum (month_expenses e ts year month)"
  by (simp add: calculateMonthlyTotals_def month_expenses_def left_sum_def Let_def)

text \<open>
  Claim C3, as stated, fails: the two buckets and the monthly expense are sums of the same
  numbers in different orders, and each addition rounds. For expenses of 0.1 (food), 0.1
  (an EMI) and 1.1 (food) the expense is (0.1 + 0.1) + 1.1 = 1.3, the controllable bucket
  is 0.1 + 1.1 = 1.2000000000000002, the other is 0.1, and their sum is
  1.3000000000000003.
\<close>

theorem split_rounding_counterexample:
  "controllableSplit utc tenths 2024 2 =
     Inr \<lparr>controllable = Finite (1351079888211149 / 1125899906842624),
          nonControllable = Finite (3602879701896397 / 36028797018963968)\<rparr>
   \<and> add64 (Finite (1351079888211149 / 1125899906842624))
           (Finite (3602879701896397 / 36028797018963968))
       = Finite (2927339757790823 / 2251799813685248)
   \<and> expense (calculateMonthlyTotals utc tenths 2024 2)
       = Finite (5854679515581645 / 4503599627370496)
   \<and> add64 (Finite (1351079888211149 / 1125899906842624))
           (Finite (3602879701896397 / 36028797018963968))
       \<noteq> expense (calculateMonthlyTotals utc tenths 2024 2)"
proof -
  have a: "controllableSplit utc tenths 2024 2 =
     Inr \<lparr>controllable = Finite (1351079888211149 / 1125899906842624),
          nonControllable = Finite (3602879701896397 / 36028797018963968)\<rparr>"
    by code_simp
  have b: "add64 (Finite (1351079888211149 / 1125899906842624))
           (Finite (3602879701896397 / 36028797018963968))
       = Finite (2927339757790823 / 2251799813685248)"
    by code_simp
  have c: "expense (calculateMonthlyTotals utc tenths 2024 2)
       = Finite (5854679515581645 / 4503599627370496)"
    by code_simp
  have d: "(2927339757790823 / 2251799813685248 :: rat) \<noteq> 5854679515581645 / 4503599627370496"
    by simp
  from a b c d show ?thesis by simp
qed

text \<open>
  Claim C3, amended. For every snapshot whose expense transactions of the month (those
  that \<open>getMonthlyTransactions\<close> returns) carry a category, and every (year, month), the
  split gives two buckets: the controllable one is the sum, added from 0 one after the
  other with the rounding of the language, of the amounts of the controllable expense
  transactions of the month, the other the same sum over the non-controllable ones. Both
  are sums over expense transactions only: a transaction of another type, such as
  income, adds to neither, and the split is the same without it. Whenever none of the
  additions rounds, in the two buckets and in the monthly expense, controllable plus
  non-controllable equals the expense of \<open>calculateMonthlyTotals\<close>; this is so in
  particular when the amounts of the expenses of the month are whole numbers, not
  negative, with a sum below \<open>2^53\<close>.
\<close>

theorem controllableSplit_buckets:
  assumes "\<forall>t\<in>set (month_expenses e ts year month). category t \<noteq> None"
  shows "\<exists>v. controllableSplit e ts year month = Inr v
     \<and> controllable v =
         left_sum (filter (\<lambda>t. isNonControllable t = Inr False)
                     (month_expenses e ts year month))
     \<and> nonControllable v =
         left_sum (filter (\<lambda>t. isNonControllable t = Inr True)
                     (month_expenses e ts year month))
     \<and> (exact_adds 0 (map amount (month_expenses e ts year month))
          \<and> exact_adds 0 (map amount (filter (\<lambda>t. isNonControllable t = Inr False)
                                        (month_expenses e ts year month)))
          \<and> exact_adds 0 (map amount (filter (\<lambda>t. isNonControllable t = Inr True)
                                        (month_expenses e ts year month)))
          \<longrightarrow> add64 (controllable v) (nonControllable v)
                = expense (calculateMonthlyTotals e ts year month))
     \<and> ((\<forall>t\<in>set (month_expenses e ts year month). amount t \<in> \<int> \<and> 0 \<le> amount t)
          \<and> sum_list (map amount (month_expenses e ts year month)) < 2 ^ 53
          \<longrightarrow> add64 (controllable v) (nonControllable v)
                = expense (calculateMonthlyTotals e ts year month))
     \<and> (type' t' \<noteq> ''expense'' \<longrightarrow>
          controllableSplit e (xs @ t' # ys) year month
            = controllableSplit e (xs @ ys) year month)"
proof -
  let ?xs = "month_expenses e ts year month"
  let ?cs = "filter (\<lambda>t. isNonControllable t = Inr False) ?xs"
  let ?ns = "filter (\<lambda>t. isNonControllable t = Inr True) ?xs"
  let ?v = "\<lparr>controllable = left_sum ?cs, nonControllable = left_sum ?ns\<rparr>"
  let ?E = "exact_adds 0 (map amount ?xs) \<and> exact_adds 0 (map amount ?cs)
          \<and> exact_adds 0 (map amount ?ns)"
  have ret: "controllableSplit e ts year month = Inr ?v"
    using assms by (rule controllableSplit_returns)
  have sum: "?E \<longrightarrow> add64 (left_sum ?cs) (left_sum ?ns) = left_sum ?xs"
  proof
    assume ex: ?E
    then have x: "left_sum ?xs = Finite (sum_list (map amount ?xs))"
      and c: "left_sum ?cs = Finite (sum_list (map amount ?cs))"
      and n: "left_sum ?ns = Finite (sum_list (map amount ?ns))"
      by (simp_all add: left_sum_exact)
    from assms have "\<forall>t\<in>set ?xs. isNonControllable t = Inr False \<or> isNonControllable t = Inr True"
      using isNonControllable_cases by blast
    then have parts: "sum_list (map amount ?cs) + sum_list (map amount ?ns)
        = sum_list (map amount ?xs)"
      by (intro sum_list_two_filters) simp_all
    from ex have "round64 (0 + sum_list (map amount ?xs)) = Finite (0 + sum_list (map amount ?xs))"
      by (intro exact_adds_total round64_zero) simp
    then have "round64 (sum_list (map amount ?cs) + sum_list (map amount ?ns))
        = Finite (sum_list (map amount ?xs))"
      by (simp add: parts)
    then show "add64 (left_sum ?cs) (left_sum ?ns) = left_sum ?xs"
      by (simp add: x c n)
  qed
  have whole: "(\<forall>t\<in>set ?xs. amount t \<in> \<int> \<and> 0 \<le> amount t)
          \<and> sum_list (map amount ?xs) < 2 ^ 53
          \<longrightarrow> add64 (left_sum ?cs) (left_sum ?ns) = left_sum ?xs"
  proof
    assume w: "(\<forall>t\<in>set ?xs. amount t \<in> \<int> \<and> 0 \<le> amount t)
          \<and> sum_list (map amount ?xs) < 2 ^ 53"
    then have f: "\<And>P. exact_adds 0 (map amount (filter P ?xs))"
      by (intro exact_adds_whole_amounts) simp_all
    from f [of "\<lambda>t. True"] have "exact_adds 0 (map amount ?xs)" by simp
    with f have ?E by simp
    with sum show "add64 (left_sum ?cs) (left_sum ?ns) = left_sum ?xs" by simp
  qed
  have drop: "type' t' \<noteq> ''expense'' \<longrightarrow>
          controllableSplit e (xs @ t' # ys) year month
            = controllableSplit e (xs @ ys) year month"
    by (simp add: controllableSplit_def getMonthlyTransactions_def Let_def)
  from ret sum whole drop show ?thesis
    by (intro exI [of _ ?v]) (simp add: expense_left_sum)
qed

theorem controllableSplit_buckets_witness:
  "controllableSplit utc march_2024 2024 2 =
     Inr \<lparr>controllable = Finite 300, nonControllable = Finite 1200\<rparr>
   \<and> add64 (Finite 300) (Finite 1200)
       = expense (calculateMonthlyTotals utc march_2024 2024 2)"
proof -
  let ?xs = "month_expenses utc march_2024 2024 2"
  have xs: "?xs = tl march_2024"
    by code_simp
  have h: "\<forall>t\<in>set ?xs. category t \<noteq> None"
    unfolding xs by (simp add: march_2024_def)
  have v: "controllableSplit utc march_2024 2024 2 =
     Inr \<lparr>controllable = Finite 300, nonControllable = Finite 1200\<rparr>"
    by code_simp
  have x: "exact_adds 0 (map amount ?xs)
          \<and> exact_adds 0 (map amount (filter (\<lambda>t. isNonControllable t = Inr False) ?xs))
          \<and> exact_adds 0 (map amount (filter (\<lambda>t. isNonControllable t = Inr True) ?xs))"
    by code_simp
  from controllableSplit_buckets [OF h] x obtain w
    where w: "controllableSplit utc march_2024 2024 2 = Inr w"
      and s: "add64 (controllable w) (nonControllable w)
                = expense (calculateMonthlyTotals utc march_2024 2024 2)"
    by blast
  from w v have "w = \<lparr>controllable = Finite 300, nonControllable = Finite 1200\<rparr>"
    by simp
  with s have "add64 (Finite 300) (Finite 1200)
       = expense (calculateMonthlyTotals utc march_2024 2024 2)"
    by simp
  with v show ?thesis by (rule conjI)
qed

section \<open>The twelve months of a year\<close>

lemma MonthFromTime_range: "0 \<le> MonthFromTime t \<and> MonthFromTime t \<le> 11"
  by (simp add: MonthFromTime_def Let_def)

lemma getMonth_range: "getMonth e tv = Some m \<Longrightarrow> 0 \<le> m \<and> m \<le> 11"
  using MonthFromTime_range by (cases tv) (auto simp: getMonth_def)

lemma month_test_range: "month_test e year month t \<Longrightarrow> 0 \<le> month \<and> month \<le> 11"
  unfolding month_test_def using getMonth_range by blast

lemma month_test_unique: "month_test e year m t \<Longrightarrow> month_test e year m' t \<Longrightarrow> m = m'"
  by (simp add: month_test_def)

lemma month_test_year: "month_test e year m t \<Longrightarrow> getFullYear e (new_Date e (date t)) = Some year"
  by (simp add: month_test_def)

lemma year_has_month:
  "getFullYear e (new_Date e (date t)) = Some year \<Longrightarrow> \<exists>m. month_test e year m t"
  by (cases "new_Date e (date t)") (auto simp: month_test_def getFullYear_def getMonth_def)

lemma mset_concat_filter_Cons:
  "mset (concat (map (\<lambda>m. filter (Q m) (t # ts)) ms)) =
   mset (concat (map (\<lambda>m. if Q m t then [t] else []) ms))
   + mset (concat (map (\<lambda>m. filter (Q m) ts) ms))"
  by (induction ms) simp_all

lemma mset_singletons_none:
  "\<forall>m\<in>set ms. \<not> Q m t \<Longrightarrow> mset (concat (map (\<lambda>m. if Q m t then [t] else []) ms)) = {#}"
  by (induction ms) simp_all

lemma mset_singletons_one:
  assumes "distinct ms" and "m0 \<in> set ms" and "Q m0 t" and uniq: "\<And>m. Q m t \<Longrightarrow> m = m0"
  shows "mset (concat (map (\<lambda>m. if Q m t then [t] else []) ms)) = {#t#}"
  using assms(1,2)
proof (induction ms)
  case Nil
  then show ?case by simp
next
  case (Cons a ms)
  show ?case
  proof (cases "a = m0")
    case True
    with Cons.prems have "m0 \<notin> set ms" by simp
    with uniq have "\<forall>m\<in>set ms. \<not> Q m t" by blast
    then have "mset (concat (map (\<lambda>m. if Q m t then [t] else []) ms)) = {#}"
      by (rule mset_singletons_none)
    with True \<open>Q m0 t\<close> show ?thesis by simp
  next
    case False
    with uniq have na: "\<not> Q a t" by blast
    from False Cons.prems have "distinct ms" "m0 \<in> set ms" by simp_all
    then have "mset (concat (map (\<lambda>m. if Q m t then [t] else []) ms)) = {#t#}"
      by (rule Cons.IH)
    with na show ?thesis by simp
  qed
qed

lemma months_partition:
  "mset (concat (map (\<lambda>m. filter (month_test e year m) ts) [0..11])) =
   mset (filter (\<lambda>t. getFullYear e (new_Date e (date t)) = Some year) ts)"
proof (induction ts)
  case Nil
  show ?case by simp
next
  case (Cons t ts)
  show ?case
  proof (cases "getFullYear e (new_Date e (date t)) = Some year")
    case True
    then obtain m0 where m0: "month_test e year m0 t" using year_has_month by blast
    have mem: "m0 \<in> set [0..11]" using month_test_range [OF m0] by simp
    have dist: "distinct [0..11::int]" by simp
    have uniq: "\<And>m. month_test e year m t \<Longrightarrow> m = m0"
      by (rule month_test_unique [OF _ m0])
    have "mset (concat (map (\<lambda>m. if month_test e year m t then [t] else []) [0..11])) = {#t#}"
      by (rule mset_singletons_one [where Q = "month_test e year", OF dist mem m0 uniq])
    with True Cons.IH show ?thesis
      by (simp only: mset_concat_filter_Cons) simp
  next
    case False
    then have "\<forall>m\<in>set [0..11]. \<not> month_test e year m t" using month_test_year by blast
    then have "mset (concat (map (\<lambda>m. if month_test e year m t then [t] else []) [0..11])) = {#}"
      by (rule mset_singletons_none)
    with False Cons.IH show ?thesis
      by (simp only: mset_concat_filter_Cons) simp
  qed
qed

text \<open>
  Put together, the twelve results of a year hold the transactions whose local year, as
  \<^verbatim>\<open>new Date(t.date).getFullYear()\<close> gives it, is that year, each as often as the
  snapshot does; a transaction with another local year, or with a date that cannot be
  parsed, is in none.
\<close>

lemma getMonthlyTransactions_local_year:
  "mset (concat (map (getMonthlyTransactions e ts year) [0..11])) =
     mset (filter (\<lambda>t. getFullYear e (new_Date e (date t)) = Some year) ts)"
proof -
  have "map (getMonthlyTransactions e ts year) [0..11]
      = map (\<lambda>m. filter (month_test e year m) ts) [0..11]"
    by (simp add: getMonthlyTransactions_month_test)
  then show ?thesis
    by (simp only: months_partition)
qed

lemma getMonthlyTransactions_one_month:
  assumes "t \<in> set (getMonthlyTransactions e ts year m)"
    and "t \<in> set (getMonthlyTransactions e ts year m')"
  shows "m = m'"
  using assms month_test_unique by (auto simp: getMonthlyTransactions_month_test)

text \<open>
  Claim C9 does not hold of the code. The year and month of a transaction are read in
  the local time of the host from a date that is parsed as midnight UTC: five hours west
  of UTC the transaction dated 2024-01-01 is in none of the twelve results of 2024, and
  it is in the result of December 2023. On a host on UTC it is in the result of January
  2024.
\<close>

theorem getMonthlyTransactions_year_shift:
  "map field_date new_year_2024 = [Some (2024, 1, 1)]
   \<and> concat (map (getMonthlyTransactions utc_minus_5 new_year_2024 2024) [0..11]) = []
   \<and> getMonthlyTransactions utc_minus_5 new_year_2024 2023 11 = new_year_2024
   \<and> getMonthlyTransactions utc new_year_2024 2024 0 = new_year_2024"
  by code_simp

section \<open>Deleting by an unknown id\<close>

text \<open>
  Claim C10. Deleting by an id that matches no stored transaction still reports success
  and leaves the stored list unchanged: for an authenticated session and a readable data
  file the DELETE route answers success for every id parameter, keeps exactly the records
  whose id differs from the parsed parameter, and so returns the file as it was when no
  record matches. The client method, once the response is ok, resolves to true and keeps
  exactly the local records whose id differs, so the local list is as it was when no
  record matches.
\<close>

theorem delete_unknown_id:
  "fst (delete_route True (Some d) id_param) = Success
   \<and> map_option transactions (snd (delete_route True (Some d) id_param)) =
       Some (filter (\<lambda>t. Some (id' t) \<noteq> parseInt id_param) (transactions d))
   \<and> ((\<forall>t\<in>set (transactions d). Some (id' t) \<noteq> parseInt id_param) \<longrightarrow>
        delete_route True (Some d) id_param = (Success, Some d))
   \<and> response_ok (fst (delete_route True (Some d) id_param))
   \<and> deleteTransaction (Response True) local_transactions ident =
       Inr (filter (\<lambda>t. Some (id' t) \<noteq> ident) local_transactions, True)
   \<and> ((\<forall>t\<in>set local_transactions. Some (id' t) \<noteq> ident) \<longrightarrow>
        deleteTransaction (Response True) local_transactions ident =
          Inr (local_transactions, True))"
  by (simp add: delete_route_def deleteTransaction_def response_ok_def Let_def)

theorem delete_unknown_id_witness:
  "delete_route True
     (Some \<lparr>transactions = march_2024, incomeSources = [''Salary''],
            expenseCategories = [''EMI'', ''Food''], expenseItems = [''Groceries'']\<rparr>) ''99''
   = (Success,
      Some \<lparr>transactions = march_2024, incomeSources = [''Salary''],
            expenseCategories = [''EMI'', ''Food''], expenseItems = [''Groceries'']\<rparr>)
   \<and> deleteTransaction (Response True) march_2024 (Some 99) = Inr (march_2024, True)"
proof -
  have p: "parseInt ''99'' = Some 99"
    by code_simp
  have a: "\<forall>t\<in>set (transactions \<lparr>transactions = march_2024, incomeSources = [''Salary''],
            expenseCategories = [''EMI'', ''Food''], expenseItems = [''Groceries'']\<rparr>).
            Some (id' t) \<noteq> parseInt ''99''"
    by (simp add: p march_2024_def)
  have b: "\<forall>t\<in>set march_2024. Some (id' t) \<noteq> Some 99"
    by (simp add: march_2024_def)
  from delete_unknown_id [of "\<lparr>transactions = march_2024, incomeSources = [''Salary''],
            expenseCategories = [''EMI'', ''Food''], expenseItems = [''Groceries'']\<rparr>"
            "''99''" march_2024 "Some 99"] a b
  show ?thesis by blast
qed

section \<open>Dates that cannot be parsed, and missing fields\<close>








section \<open>The calendar of the platform\<close>

text \<open>
  The year computed from the estimate is the year of the ECMAScript definition: the one
  whose first day is not after the given day while the first day of the next year is.
  A day of the calendar, made into a day number by MakeDay, is read back as the same
  year, month and date.
\<close>

lemma div_lower:
  fixes z n :: int
  assumes "0 < n"
  shows "n * (z div n) \<le> z"
proof -
  have "z = n * (z div n) + z mod n" by simp
  moreover from assms have "0 \<le> z mod n" by simp
  ultimately show ?thesis by linarith
qed

lemma div_upper:
  fixes z n :: int
  assumes "0 < n"
  shows "z < n * (z div n) + n"
proof -
  have "z = n * (z div n) + z mod n" by simp
  moreover from assms have "z mod n < n" by simp
  ultimately show ?thesis by linarith
qed

lemma DayFromYear_upper: "400 * DayFromYear y \<le> 146097 * (y - 1970) + 589"
proof -
  have "y - 1969 < 4 * ((y - 1969) div 4) + 4" by (rule div_upper) simp
  moreover have "100 * ((y - 1901) div 100) \<le> y - 1901" by (rule div_lower) simp
  moreover have "y - 1601 < 400 * ((y - 1601) div 400) + 400" by (rule div_upper) simp
  moreover have "4 * ((y - 1969) div 4) \<le> y - 1969" by (rule div_lower) simp
  moreover have "y - 1901 < 100 * ((y - 1901) div 100) + 100" by (rule div_upper) simp
  moreover have "400 * ((y - 1601) div 400) \<le> y - 1601" by (rule div_lower) simp
  ultimately show ?thesis unfolding DayFromYear_def by simp
qed

lemma DayFromYear_lower: "146097 * (y - 1970) - 506 \<le> 400 * DayFromYear y"
proof -
  have "y - 1969 < 4 * ((y - 1969) div 4) + 4" by (rule div_upper) simp
  moreover have "100 * ((y - 1901) div 100) \<le> y - 1901" by (rule div_lower) simp
  moreover have "y - 1601 < 400 * ((y - 1601) div 400) + 400" by (rule div_upper) simp
  moreover have "4 * ((y - 1969) div 4) \<le> y - 1969" by (rule div_lower) simp
  moreover have "y - 1901 < 100 * ((y - 1901) div 100) + 100" by (rule div_upper) simp
  moreover have "400 * ((y - 1601) div 400) \<le> y - 1601" by (rule div_lower) simp
  ultimately show ?thesis unfolding DayFromYear_def by simp
qed

lemma YearFromDay_spec:
  "DayFromYear (YearFromDay d) \<le> d \<and> d < DayFromYear (YearFromDay d + 1)"
proof -
  define y where "y = 1970 + (400 * d) div 146097"
  have b1: "146097 * (y - 1970) \<le> 400 * d"
    using div_lower [of 146097 "400 * d"] by (simp add: y_def)
  have b2: "400 * d < 146097 * (y - 1970) + 146097"
    using div_upper [of 146097 "400 * d"] by (simp add: y_def)
  have yd: "YearFromDay d = (if d < DayFromYear y then y - 1
      else if DayFromYear (y + 1) \<le> d then y + 1 else y)"
    by (simp add: YearFromDay_def y_def Let_def)
  show ?thesis
  proof (cases "d < DayFromYear y")
    case True
    have "DayFromYear (y - 1) \<le> d"
      using DayFromYear_upper [of "y - 1"] b1 by simp
    with True show ?thesis by (simp add: yd)
  next
    case False
    show ?thesis
    proof (cases "DayFromYear (y + 1) \<le> d")
      case True
      have "d < DayFromYear (y + 1 + 1)"
        using DayFromYear_lower [of "y + 1 + 1"] b2 by simp
      with True False show ?thesis by (simp add: yd)
    next
      case F2: False
      with False show ?thesis by (simp add: yd)
    qed
  qed
qed

lemma DayFromYear_mono: "y1 < y2 \<Longrightarrow> DayFromYear (y1 + 1) \<le> DayFromYear y2"
proof (cases "y2 = y1 + 1")
  case True
  then show ?thesis by simp
next
  case False
  assume "y1 < y2"
  with False have "y1 + 2 \<le> y2" by simp
  then show ?thesis
    using DayFromYear_upper [of "y1 + 1"] DayFromYear_lower [of y2] by simp
qed

lemma YearFromDay_unique:
  assumes "DayFromYear y \<le> x" and "x < DayFromYear (y + 1)"
  shows "YearFromDay x = y"
proof (rule ccontr)
  assume ne: "YearFromDay x \<noteq> y"
  let ?y = "YearFromDay x"
  from YearFromDay_spec [of x] have s1: "DayFromYear ?y \<le> x" and s2: "x < DayFromYear (?y + 1)"
    by simp_all
  show False
  proof (cases "?y < y")
    case True
    then have "DayFromYear (?y + 1) \<le> DayFromYear y" by (rule DayFromYear_mono)
    with assms(1) s2 show False by simp
  next
    case False
    with ne have "y < ?y" by simp
    then have "DayFromYear (y + 1) \<le> DayFromYear ?y" by (rule DayFromYear_mono)
    with assms(2) s1 show False by simp
  qed
qed

lemma succ_div:
  fixes z n :: int
  assumes "0 < n"
  shows "(z + 1) div n = z div n + (if (z + 1) mod n = 0 then 1 else 0)"
proof -
  have z: "z = n * (z div n) + z mod n" by simp
  from assms have r: "0 \<le> z mod n" "z mod n < n" by simp_all
  show ?thesis
  proof (cases "z mod n + 1 < n")
    case True
    have e: "z + 1 = n * (z div n) + (z mod n + 1)" using z by simp
    from r have nn: "0 \<le> z mod n + 1" by simp
    have "(z + 1) div n = z div n" by (rule int_div_pos_eq [OF e nn True])
    moreover have "(z + 1) mod n = z mod n + 1" by (rule int_mod_pos_eq [OF e nn True])
    ultimately show ?thesis using r by simp
  next
    case False
    with r have eq: "z mod n + 1 = n" by simp
    have "z + 1 = n * (z div n) + (z mod n + 1)" using z by simp
    also have "\<dots> = n * (z div n) + n" by (simp only: eq)
    also have "\<dots> = n * (z div n + 1) + 0" by (simp add: algebra_simps)
    finally have e: "z + 1 = n * (z div n + 1) + 0" .
    have "(z + 1) div n = z div n + 1" by (rule int_div_pos_eq [OF e _ assms]) simp
    moreover have "(z + 1) mod n = 0" by (rule int_mod_pos_eq [OF e _ assms]) simp
    ultimately show ?thesis by simp
  qed
qed

lemma mod_shift:
  fixes z n k :: int
  assumes "0 < n"
  shows "(z - n * k) mod n = z mod n"
proof -
  have "z = n * (z div n) + z mod n" by simp
  then have e: "z - n * k = n * (z div n - k) + z mod n" by (simp add: algebra_simps)
  from assms show ?thesis by (intro int_mod_pos_eq [OF e]) simp_all
qed

lemma DayFromYear_step: "DayFromYear (y + 1) = DayFromYear y + DaysInYear y"
proof -
  have d4: "(y - 1968) div 4 = (y - 1969) div 4 + (if y mod 4 = 0 then 1 else 0)"
    using succ_div [of 4 "y - 1969"] mod_shift [of 4 y 492] by simp
  have d100: "(y - 1900) div 100 = (y - 1901) div 100 + (if y mod 100 = 0 then 1 else 0)"
    using succ_div [of 100 "y - 1901"] mod_shift [of 100 y 19] by simp
  have d400: "(y - 1600) div 400 = (y - 1601) div 400 + (if y mod 400 = 0 then 1 else 0)"
    using succ_div [of 400 "y - 1601"] mod_shift [of 400 y 4] by simp
  have m1: "y mod 100 = 0 \<Longrightarrow> y mod 4 = 0"
    using mod_mod_cancel [of 4 100 y] by simp
  have m2: "y mod 400 = 0 \<Longrightarrow> y mod 100 = 0"
    using mod_mod_cancel [of 100 400 y] by simp
  have "DayFromYear (y + 1) =
      365 * (y - 1969) + (y - 1968) div 4 - (y - 1900) div 100 + (y - 1600) div 400"
    by (simp add: DayFromYear_def)
  then show ?thesis
    using m1 m2 by (auto simp: d4 d100 d400 DayFromYear_def DaysInYear_def)
qed

lemma month_cases:
  fixes mi :: int
  assumes "0 \<le> mi" and "mi \<le> 11"
  obtains "mi = 0" | "mi = 1" | "mi = 2" | "mi = 3" | "mi = 4" | "mi = 5"
    | "mi = 6" | "mi = 7" | "mi = 8" | "mi = 9" | "mi = 10" | "mi = 11"
proof -
  from assms have "mi = 0 \<or> mi = 1 \<or> mi = 2 \<or> mi = 3 \<or> mi = 4 \<or> mi = 5
      \<or> mi = 6 \<or> mi = 7 \<or> mi = 8 \<or> mi = 9 \<or> mi = 10 \<or> mi = 11"
    by arith
  with that show thesis by blast
qed

text \<open>Every day is the day that MakeDay gives for its own year, month and date.\<close>

lemma Day_from_fields:
  "Day t = MakeDay (YearFromTime t) (MonthFromTime t) (DateFromTime t)"
proof -
  have r: "0 \<le> MonthFromTime t" "MonthFromTime t \<le> 11"
    using MonthFromTime_range by simp_all
  then have dm: "MonthFromTime t div 12 = 0" "MonthFromTime t mod 12 = MonthFromTime t"
    by simp_all
  have "DateFromTime t =
      DayWithinYear t - DaysBeforeMonth (MonthFromTime t) (InLeapYear t) + 1"
    using r by (cases rule: month_cases [of "MonthFromTime t"])
      (simp_all add: DateFromTime_def DaysBeforeMonth_def Let_def)
  then show ?thesis
    by (simp add: MakeDay_def Let_def dm DayWithinYear_def InLeapYear_def)
qed

lemma fields_of_MakeDay:
  assumes mi: "0 \<le> mi" "mi \<le> 11" and d: "1 \<le> d" "d \<le> DaysInMonth y mi"
    and day: "Day t = MakeDay y mi d"
  shows "YearFromTime t = y \<and> MonthFromTime t = mi \<and> DateFromTime t = d"
proof -
  define l :: int where "l = (if DaysInYear y = 366 then 1 else 0)"
  from mi have dm: "mi div 12 = 0" "mi mod 12 = mi" by simp_all
  have md: "MakeDay y mi d = DayFromYear y + (DaysBeforeMonth mi l + d - 1)"
    by (simp add: MakeDay_def Let_def dm l_def)
  have diy: "DaysInYear y = 365 + l"
    by (simp add: l_def DaysInYear_def)
  have l01: "l = 0 \<or> l = 1" by (simp add: l_def)
  have dim: "DaysInMonth y mi =
      (if mi = 1 then 28 + l else if mi = 3 \<or> mi = 5 \<or> mi = 8 \<or> mi = 10 then 30 else 31)"
    by (simp add: DaysInMonth_def l_def)
  have rng: "0 \<le> DaysBeforeMonth mi l + d - 1 \<and> DaysBeforeMonth mi l + d - 1 < 365 + l"
    using mi d l01 unfolding dim
    by (cases rule: month_cases [of mi]) (auto simp: DaysBeforeMonth_def)
  have "YearFromDay (Day t) = y"
  proof (rule YearFromDay_unique)
    from rng show "DayFromYear y \<le> Day t" by (simp add: day md)
    from rng show "Day t < DayFromYear (y + 1)" by (simp add: day md DayFromYear_step diy)
  qed
  then have yr: "YearFromTime t = y" by (simp add: YearFromTime_def)
  then have dwy: "DayWithinYear t = DaysBeforeMonth mi l + d - 1"
    by (simp add: DayWithinYear_def day md)
  from yr have leap: "InLeapYear t = l" by (simp add: InLeapYear_def l_def)
  have mon: "MonthFromTime t = mi"
    using mi d l01 unfolding dim
    by (cases rule: month_cases [of mi])
       (auto simp: MonthFromTime_def Let_def dwy leap DaysBeforeMonth_def)
  have "DateFromTime t = d"
    using mi l01
    by (cases rule: month_cases [of mi])
       (auto simp: DateFromTime_def Let_def mon dwy leap DaysBeforeMonth_def)
  with yr mon show ?thesis by simp
qed

lemma digit_range: "digit c = Some v \<Longrightarrow> 0 \<le> v \<and> v \<le> 9"
  by (auto simp: digit_def Let_def split: if_splits)

lemma two_digits_range: "two_digits s = Some (v, r) \<Longrightarrow> 0 \<le> v \<and> v \<le> 99"
proof (induction s rule: two_digits.induct)
  case (1 a b s)
  then obtain x y where "digit a = Some x" "digit b = Some y" "v = 10 * x + y"
    by (auto split: option.splits)
  then show ?case using digit_range [of a x] digit_range [of b y] by simp
qed simp_all

lemma four_digits_range: "four_digits s = Some (y, r) \<Longrightarrow> 0 \<le> y \<and> y \<le> 9999"
proof -
  assume "four_digits s = Some (y, r)"
  then obtain a r1 b where "two_digits s = Some (a, r1)" "two_digits r1 = Some (b, r)"
    "y = 100 * a + b"
    by (auto split: option.splits)
  then show ?thesis using two_digits_range [of s a r1] two_digits_range [of r1 b r] by simp
qed

lemma parse_date_part_year:
  "parse_date_part s = Some (y, m, d, r) \<Longrightarrow> 0 \<le> y \<and> y \<le> 9999"
proof -
  assume "parse_date_part s = Some (y, m, d, r)"
  then obtain r1 where "four_digits s = Some (y, r1)"
    by (auto simp: parse_date_part_def simp del: four_digits.simps
        split: option.splits list.splits if_splits)
  then show ?thesis by (rule four_digits_range)
qed

lemma MakeDay_bounds:
  assumes "0 \<le> y" "y \<le> 9999" "0 \<le> mi" "mi \<le> 11" "1 \<le> d" "d \<le> 31"
  shows "- 720000 \<le> MakeDay y mi d \<and> MakeDay y mi d \<le> 2940000"
proof -
  from assms have dm: "mi div 12 = 0" "mi mod 12 = mi" by simp_all
  have b: "0 \<le> DaysBeforeMonth mi (if DaysInYear y = 366 then 1 else 0)
       \<and> DaysBeforeMonth mi (if DaysInYear y = 366 then 1 else 0) \<le> 335"
    by (simp add: DaysBeforeMonth_def)
  from assms DayFromYear_upper [of y] DayFromYear_lower [of y]
  have "- 719999 \<le> DayFromYear y \<and> DayFromYear y \<le> 2932900" by simp
  with b assms show ?thesis by (simp add: MakeDay_def Let_def dm)
qed

lemma Day_shift_east:
  assumes "0 \<le> z" "z < msPerDay"
  shows "Day (x * msPerDay + z) = x"
  unfolding Day_def
  by (rule int_div_pos_eq [of _ _ _ z]) (use assms in \<open>simp_all add: mult.commute\<close>)

lemma Day_shift_west:
  assumes "- msPerDay \<le> z" "z < 0"
  shows "Day (x * msPerDay + z) = x - 1"
  unfolding Day_def
  by (rule int_div_pos_eq [of _ _ _ "z + msPerDay"]) (use assms in \<open>simp_all add: algebra_simps\<close>)

lemma DaysInMonth_le: "DaysInMonth y mi \<le> 31"
  by (simp add: DaysInMonth_def)

lemma calendar_date_parse:
  assumes "calendar_date s = Some (y, m, d)"
  shows "new_Date e (Some s) = Some (MakeDay y (m - 1) d * msPerDay)
     \<and> 1 \<le> m \<and> m \<le> 12 \<and> 1 \<le> d \<and> d \<le> DaysInMonth y (m - 1)"
proof -
  from assms have p: "parse_date_part s = Some (y, m, d, [])"
    and v: "1 \<le> m" "m \<le> 12" "1 \<le> d" "d \<le> DaysInMonth y (m - 1)"
    by (auto simp: calendar_date_def split: option.splits if_splits)
  from p have yr: "0 \<le> y" "y \<le> 9999"
    using parse_date_part_year by blast+
  from v have iso: "parse_iso (LocalTZA e) s = Some (MakeDay y (m - 1) d * msPerDay)"
    by (simp add: parse_iso_def p MakeDate_def)
  from v DaysInMonth_le [of y "m - 1"] have "d \<le> 31" by simp
  with yr v have "- 720000 \<le> MakeDay y (m - 1) d \<and> MakeDay y (m - 1) d \<le> 2940000"
    by (intro MakeDay_bounds) simp_all
  then have "\<bar>MakeDay y (m - 1) d * msPerDay\<bar> \<le> 8640000000000000"
    by (simp add: msPerDay_def abs_le_iff)
  with iso v show ?thesis
    by (simp add: new_Date_def Date_parse_def TimeClip_def)
qed

lemma date_only_east:
  assumes cd: "calendar_date s = Some (y, m, d)"
    and tz: "0 \<le> LocalTZA e" "LocalTZA e < msPerDay"
  shows "getFullYear e (new_Date e (Some s)) = Some y
     \<and> getMonth e (new_Date e (Some s)) = Some (m - 1)
     \<and> getDate e (new_Date e (Some s)) = Some d"
proof -
  from calendar_date_parse [OF cd]
  have nd: "new_Date e (Some s) = Some (MakeDay y (m - 1) d * msPerDay)"
    and v: "1 \<le> m" "m \<le> 12" "1 \<le> d" "d \<le> DaysInMonth y (m - 1)"
    by simp_all
  have "Day (LocalTime e (MakeDay y (m - 1) d * msPerDay)) = MakeDay y (m - 1) d"
    unfolding LocalTime_def by (rule Day_shift_east [OF tz])
  with v have "YearFromTime (LocalTime e (MakeDay y (m - 1) d * msPerDay)) = y
      \<and> MonthFromTime (LocalTime e (MakeDay y (m - 1) d * msPerDay)) = m - 1
      \<and> DateFromTime (LocalTime e (MakeDay y (m - 1) d * msPerDay)) = d"
    by (intro fields_of_MakeDay) simp_all
  then show ?thesis
    by (simp add: nd getFullYear_def getMonth_def getDate_def)
qed

lemma date_only_west:
  assumes cd: "calendar_date s = Some (y, m, d)"
    and tz: "- msPerDay \<le> LocalTZA e" "LocalTZA e < 0"
  shows "\<not> (getFullYear e (new_Date e (Some s)) = Some y
     \<and> getMonth e (new_Date e (Some s)) = Some (m - 1)
     \<and> getDate e (new_Date e (Some s)) = Some d)"
proof
  assume a: "getFullYear e (new_Date e (Some s)) = Some y
     \<and> getMonth e (new_Date e (Some s)) = Some (m - 1)
     \<and> getDate e (new_Date e (Some s)) = Some d"
  let ?t = "LocalTime e (MakeDay y (m - 1) d * msPerDay)"
  from calendar_date_parse [OF cd]
  have nd: "new_Date e (Some s) = Some (MakeDay y (m - 1) d * msPerDay)"
    by simp
  from a have "YearFromTime ?t = y" "MonthFromTime ?t = m - 1" "DateFromTime ?t = d"
    by (simp_all add: nd getFullYear_def getMonth_def getDate_def)
  with Day_from_fields [of ?t] have "Day ?t = MakeDay y (m - 1) d" by simp
  moreover have "Day ?t = MakeDay y (m - 1) d - 1"
    unfolding LocalTime_def by (rule Day_shift_west [OF tz])
  ultimately show False by simp
qed

text \<open>
  A transaction whose date is a date-only string naming a day of the calendar: on a host
  whose local time is UTC or ahead of it by less than a day, \<open>getDailyTransactions\<close>
  holds it exactly for that year, month and day; on a host behind UTC by up to a day it
  never holds it for its own date.
\<close>

lemma getDailyTransactions_date_only_east:
  assumes "calendar_date s = Some (y, m, d)" and "date t = Some s"
    and "0 \<le> LocalTZA e" and "LocalTZA e < msPerDay"
  shows "t \<in> set (getDailyTransactions e ts year month day) \<longleftrightarrow>
           t \<in> set ts \<and> year = y \<and> month = m - 1 \<and> day = d"
  using date_only_east [OF assms(1,3,4)]
  by (auto simp: getDailyTransactions_def Let_def assms(2))

lemma getDailyTransactions_date_only_west:
  assumes "calendar_date s = Some (y, m, d)" and "date t = Some s"
    and "- msPerDay \<le> LocalTZA e" and "LocalTZA e < 0"
  shows "t \<notin> set (getDailyTransactions e ts y (m - 1) d)"
  using date_only_west [OF assms(1,3,4)]
  by (auto simp: getDailyTransactions_def Let_def assms(2))

text \<open>
  On a host whose local time is UTC or ahead of it by less than a day, such a transaction
  is in the result of \<open>getMonthlyTransactions\<close> exactly for the year and month of its
  calendar date.
\<close>

lemma getMonthlyTransactions_date_only_east:
  assumes "calendar_date s = Some (y, m, d)" and "date t = Some s"
    and "0 \<le> LocalTZA e" and "LocalTZA e < msPerDay"
  shows "t \<in> set (getMonthlyTransactions e ts year month) \<longleftrightarrow>
           t \<in> set ts \<and> year = y \<and> month = m - 1"
  using date_only_east [OF assms(1,3,4)]
  by (auto simp: getMonthlyTransactions_def Let_def assms(2))

section \<open>Daily transactions and the time zone\<close>

text \<open>
  Claim C4 does not hold of the code. A date-only string is parsed as midnight UTC and
  then read with the local-time getters: five hours west of UTC the transaction dated
  2024-03-01 is missing from the first of March and shows on the 29th of February. A
  time component is not ignored either: the instant 2024-03-01T02:00Z falls on the 29th
  of February there.
\<close>

theorem getDailyTransactions_shifted:
  "getDailyTransactions utc_minus_5
     [\<lparr>id' = 1, type' = ''expense'', amount = 10, category = Some ''Food'', item = None,
       date = Some ''2024-03-01''\<rparr>] 2024 2 1 = []
   \<and> getDailyTransactions utc_minus_5
     [\<lparr>id' = 1, type' = ''expense'', amount = 10, category = Some ''Food'', item = None,
       date = Some ''2024-03-01''\<rparr>] 2024 1 29
     = [\<lparr>id' = 1, type' = ''expense'', amount = 10, category = Some ''Food'', item = None,
         date = Some ''2024-03-01''\<rparr>]
   \<and> getDailyTransactions utc_minus_5
     [\<lparr>id' = 2, type' = ''expense'', amount = 10, category = Some ''Food'', item = None,
       date = Some ''2024-03-01T02:00:00Z''\<rparr>] 2024 2 1 = []
   \<and> getDailyTransactions utc
     [\<lparr>id' = 1, type' = ''expense'', amount = 10, category = Some ''Food'', item = None,
       date = Some ''2024-03-01''\<rparr>] 2024 2 1
     = [\<lparr>id' = 1, type' = ''expense'', amount = 10, category = Some ''Food'', item = None,
         date = Some ''2024-03-01''\<rparr>]"
  by code_simp

section \<open>Sums by category\<close>

lemma is_number_iff: "is_number v \<longleftrightarrow> (\<exists>n. v = Num n \<and> n \<noteq> NaN)"
  by (cases v) simp_all

lemma map_of_update_own: "map_of (update_own k v obj) = (map_of obj)(k \<mapsto> v)"
  by (induction obj) auto

lemma update_own_twice: "update_own k v (update_own k w obj) = update_own k v obj"
  by (induction obj) auto

lemma update_own_same: "map_of obj k = Some v \<Longrightarrow> update_own k v obj = obj"
  by (induction obj) (auto split: if_splits)

lemma keys_update_own: "fst ` set (update_own k v obj) = insert k (fst ` set obj)"
  by (simp add: dom_map_of_conv_image_fst [symmetric] map_of_update_own)

lemma numeric_update_own:
  "numeric obj \<Longrightarrow> n \<noteq> NaN \<Longrightarrow> numeric (update_own k (Num n) obj)"
  by (induction obj) (auto simp: numeric_def)

lemma numeric_map_of: "numeric obj \<Longrightarrow> map_of obj k = Some v \<Longrightarrow> is_number v"
  by (induction obj) (auto simp: numeric_def split: if_splits)

lemma current_update_own:
  "current (update_own k (Num n) obj) k' = (if k' = k then n else current obj k')"
  by (simp add: current_def map_of_update_own)

lemma round64_not_NaN: "round64 x \<noteq> NaN"
  by (simp add: round64_def Let_def)

lemma number_plus_not_NaN: "n \<noteq> NaN \<Longrightarrow> number_plus n x \<noteq> NaN"
  by (cases n) (simp_all add: number_plus_def round64_not_NaN)

lemma current_not_NaN: "numeric obj \<Longrightarrow> current obj k \<noteq> NaN"
proof (cases "map_of obj k")
  case None
  then show ?thesis by (simp add: current_def)
next
  case (Some v)
  assume "numeric obj"
  then have "is_number v" using Some by (rule numeric_map_of)
  with Some show ?thesis by (auto simp: current_def is_number_iff)
qed

lemma proto_is_member: "''__proto__'' \<in> set Object_prototype_names"
  by (simp add: Object_prototype_names_def)

lemma add_expense_numeric:
  assumes num: "numeric obj" and key: "category_key t \<notin> set Object_prototype_names"
  shows "add_expense obj t =
      update_own (category_key t) (Num (number_plus (current obj (category_key t)) (amount t))) obj"
proof -
  let ?k = "category_key t"
  from key proto_is_member have np: "?k \<noteq> ''__proto__''" by auto
  show ?thesis
  proof (cases "map_of obj ?k")
    case None
    with key have "get_property obj ?k = Absent" by (simp add: get_property_def)
    with None np show ?thesis
      by (simp add: add_expense_def category_key_def [symmetric] Let_def set_property_def
          get_property_def map_of_update_own update_own_twice current_def)
  next
    case (Some v)
    with num have "is_number v" by (rule numeric_map_of)
    then obtain n where v: "v = Num n" and n: "n \<noteq> NaN" using is_number_iff by blast
    from Some v have own: "get_property obj ?k = Own (Num n)"
      by (simp add: get_property_def)
    from Some v have cur: "current obj ?k = n"
      by (simp add: current_def)
    show ?thesis
    proof (cases "falsy (Own (Num n))")
      case True
      with n have n0: "n = Finite 0" by (cases n) simp_all
      from Some v n0 have same: "update_own ?k (Num (Finite 0)) obj = obj"
        by (simp add: update_own_same)
      from True own np same Some v n0 show ?thesis
        by (simp add: add_expense_def category_key_def [symmetric] Let_def set_property_def cur)
    next
      case False
      with own np show ?thesis
        by (simp add: add_expense_def category_key_def [symmetric] Let_def set_property_def cur)
    qed
  qed
qed

lemma category_sum_Cons:
  "category_sum k a (t # ts) =
     (if category_key t = k then category_sum k (number_plus a (amount t)) ts
      else category_sum k a ts)"
  by (simp add: category_sum_def)

lemma foldl_add_expense:
  assumes "numeric obj" and "\<forall>t\<in>set xs. category_key t \<notin> set Object_prototype_names"
  shows "numeric (foldl add_expense obj xs)
     \<and> (\<forall>k. current (foldl add_expense obj xs) k = category_sum k (current obj k) xs)
     \<and> fst ` set (foldl add_expense obj xs) = fst ` set obj \<union> category_key ` set xs"
  using assms
proof (induction xs arbitrary: obj)
  case Nil
  then show ?case by (simp add: category_sum_def)
next
  case (Cons t xs)
  let ?n = "number_plus (current obj (category_key t)) (amount t)"
  let ?obj = "update_own (category_key t) (Num ?n) obj"
  from Cons.prems have step: "add_expense obj t = ?obj"
    by (intro add_expense_numeric) simp_all
  from Cons.prems have "current obj (category_key t) \<noteq> NaN"
    by (intro current_not_NaN) simp
  then have "?n \<noteq> NaN" by (rule number_plus_not_NaN)
  with Cons.prems have n: "numeric ?obj" by (intro numeric_update_own) simp_all
  from Cons.prems have r: "\<forall>t\<in>set xs. category_key t \<notin> set Object_prototype_names" by simp
  note IH = Cons.IH [OF n r]
  show ?case
    by (simp add: step IH current_update_own keys_update_own category_sum_Cons)
qed

lemma numeric_Nil: "numeric []"
  by (simp add: numeric_def)

text \<open>
  Where no expense of the month bears a category named like a member of
  \<^verbatim>\<open>Object.prototype\<close>, the result maps each category of an expense of the month to the
  sum of the amounts of the expenses bearing it, added from 0 one after the other, and
  holds no other category.
\<close>

lemma getExpensesByCategory_sums:
  assumes "\<forall>t\<in>set (month_expenses e ts year month).
             category_key t \<notin> set Object_prototype_names"
  shows "map_of (getExpensesByCategory e ts year month) k =
     (if k \<in> category_key ` set (month_expenses e ts year month)
      then Some (Num (category_sum k (Finite 0) (month_expenses e ts year month)))
      else None)"
proof -
  let ?xs = "month_expenses e ts year month"
  let ?r = "foldl add_expense [] ?xs"
  have r: "getExpensesByCategory e ts year month = ?r"
    by (simp add: getExpensesByCategory_def month_expenses_def)
  from foldl_add_expense [OF numeric_Nil assms]
  have num: "numeric ?r"
    and cur: "\<And>k. current ?r k = category_sum k (Finite 0) ?xs"
    and keys: "fst ` set ?r = category_key ` set ?xs"
    by (simp_all add: current_def)
  show ?thesis
  proof (cases "k \<in> category_key ` set ?xs")
    case True
    then have "k \<in> fst ` set ?r" by (simp add: keys)
    then obtain v where v: "map_of ?r k = Some v"
      by (auto simp: dom_map_of_conv_image_fst [symmetric])
    with num have "is_number v" by (rule numeric_map_of)
    then obtain n where n: "v = Num n" using is_number_iff by blast
    with v cur [of k] have "n = category_sum k (Finite 0) ?xs"
      by (simp add: current_def)
    with True v n show ?thesis by (simp add: r)
  next
    case False
    then have "k \<notin> fst ` set ?r" by (simp add: keys)
    then have "map_of ?r k = None" by (simp add: map_of_eq_None_iff)
    with False show ?thesis by (simp add: r)
  qed
qed

section \<open>Categories named like members of Object.prototype\<close>

text \<open>
  Claim C5 does not hold of the code. For the category \<^verbatim>\<open>constructor\<close> the lookup finds
  the inherited function, which is not falsy, so no zero is stored and \<^verbatim>\<open>+=\<close> builds a
  string from it and the amounts; for the category \<^verbatim>\<open>__proto__\<close> the assignment is
  dropped and the category is absent although an expense of the month bears it. A
  category such as \<^verbatim>\<open>Food\<close> beside them is summed as claimed.
\<close>

theorem getExpensesByCategory_builtin_names:
  "getExpensesByCategory utc
     [\<lparr>id' = 1, type' = ''expense'', amount = 5, category = Some ''constructor'',
       item = None, date = Some ''2024-03-05''\<rparr>,
      \<lparr>id' = 2, type' = ''expense'', amount = 7, category = Some ''constructor'',
       item = None, date = Some ''2024-03-06''\<rparr>,
      \<lparr>id' = 3, type' = ''expense'', amount = 9, category = Some ''__proto__'',
       item = None, date = Some ''2024-03-07''\<rparr>,
      \<lparr>id' = 4, type' = ''expense'', amount = 2, category = Some ''Food'',
       item = None, date = Some ''2024-03-08''\<rparr>,
      \<lparr>id' = 5, type' = ''expense'', amount = 3, category = Some ''Food'',
       item = None, date = Some ''2024-03-09''\<rparr>] 2024 2
   = [(''constructor'', Str ''constructor'' [5, 7]), (''Food'', Num (Finite 5))]"
  by code_simp

text \<open>
  Claim C6 does not hold of the code, by the same defect: an expense whose category is
  \<^verbatim>\<open>__proto__\<close> is counted in the monthly expense and is missing from the result of
  \<open>getExpensesByCategory\<close>, whose values then sum to less.
\<close>

theorem category_sums_differ:
  "getExpensesByCategory utc
     [\<lparr>id' = 1, type' = ''expense'', amount = 9, category = Some ''__proto__'',
       item = None, date = Some ''2024-03-07''\<rparr>,
      \<lparr>id' = 2, type' = ''expense'', amount = 2, category = Some ''Food'',
       item = None, date = Some ''2024-03-08''\<rparr>] 2024 2
   = [(''Food'', Num (Finite 2))]
   \<and> total_of_values (getExpensesByCategory utc
     [\<lparr>id' = 1, type' = ''expense'', amount = 9, category = Some ''__proto__'',
       item = None, date = Some ''2024-03-07''\<rparr>,
      \<lparr>id' = 2, type' = ''expense'', amount = 2, category = Some ''Food'',
       item = None, date = Some ''2024-03-08''\<rparr>] 2024 2) = Some (Finite 2)
   \<and> expense (calculateMonthlyTotals utc
     [\<lparr>id' = 1, type' = ''expense'', amount = 9, category = Some ''__proto__'',
       item = None, date = Some ''2024-03-07''\<rparr>,
      \<lparr>id' = 2, type' = ''expense'', amount = 2, category = Some ''Food'',
       item = None, date = Some ''2024-03-08''\<rparr>] 2024 2) = Finite 11"
  by code_simp

section \<open>Percentages of the breakdown\<close>






end
